theory Spec2Isabelle
  imports Main
begin

section \<open>JavaScript values used by the handlers\<close>

text \<open>
  Strings are byte strings, so the model covers ASCII text. Numbers are the integers (the
  ward numbers, page numbers and limits of the handlers); \<open>NaN\<close> is written out where
  \<open>parseInt\<close> can produce it. Object ids are natural numbers and dates are milliseconds.
\<close>

type_synonym objid = nat
type_synonym date = int

datatype jsnum = NaN | Num int

text \<open>White space as \<open>String.prototype.trim\<close> and \<open>parseInt\<close> see it (ASCII part).\<close>

definition is_ws :: "char \<Rightarrow> bool" where
  "is_ws c = (c \<in> set [CHR '' '', CHR 0x09, CHR 0x0A, CHR 0x0B, CHR 0x0C, CHR 0x0D])"

definition ltrim :: "string \<Rightarrow> string" where
  "ltrim s = dropWhile is_ws s"

definition trim :: "string \<Rightarrow> string" where
  "trim s = rev (dropWhile is_ws (rev (dropWhile is_ws s)))"

text \<open>The value of a character as a digit of the given radix (10 or 16).\<close>

definition digit_of :: "nat \<Rightarrow> char \<Rightarrow> nat option" where
  "digit_of radix c =
     (let k = (of_char c :: nat);
          v = (if 48 \<le> k \<and> k \<le> 57 then Some (k - 48)
               else if 97 \<le> k \<and> k \<le> 102 then Some (k - 87)
               else if 65 \<le> k \<and> k \<le> 70 then Some (k - 55)
               else None)
      in case v of None \<Rightarrow> None | Some d \<Rightarrow> if d < radix then Some d else None)"

text \<open>
  The longest prefix of digits, read left to right; \<open>None\<close> when the prefix is empty.
  \<open>acc\<close> is \<open>None\<close> until the first digit has been read.
\<close>

fun read_digits :: "nat \<Rightarrow> nat option \<Rightarrow> string \<Rightarrow> nat option" where
  "read_digits radix acc [] = acc"
| "read_digits radix acc (c # cs) =
     (case digit_of radix c of
        None \<Rightarrow> acc
      | Some d \<Rightarrow> read_digits radix (Some ((case acc of None \<Rightarrow> 0 | Some a \<Rightarrow> a) * radix + d)) cs)"

text \<open>
  \<open>parseInt(s)\<close> without a radix: skip leading white space, read an optional sign, strip a
  \<open>0x\<close>/\<open>0X\<close> prefix (then the radix is 16), read the longest prefix of digits. No digit
  gives \<open>NaN\<close>.
\<close>

definition parseInt :: "string \<Rightarrow> jsnum" where
  "parseInt s =
     (let t = ltrim s;
          neg = (case t of c # _ \<Rightarrow> c = CHR ''-'' | [] \<Rightarrow> False);
          t1 = (case t of c # r \<Rightarrow> if c = CHR ''-'' \<or> c = CHR ''+'' then r else t | [] \<Rightarrow> t);
          hex = (case t1 of a # b # _ \<Rightarrow> a = CHR ''0'' \<and> (b = CHR ''x'' \<or> b = CHR ''X'') | _ \<Rightarrow> False);
          t2 = (if hex then drop 2 t1 else t1)
      in case read_digits (if hex then 16 else 10) None t2 of
           None \<Rightarrow> NaN
         | Some m \<Rightarrow> Num (if neg then - int m else int m))"

text \<open>Decimal rendering of a number inside a template literal.\<close>

definition digit_char :: "nat \<Rightarrow> char" where
  "digit_char d = ''0123456789'' ! d"

fun show_nat :: "nat \<Rightarrow> string" where
  "show_nat n =
     (if n < 10 then [digit_char n]
      else show_nat (n div 10) @ [digit_char (n mod 10)])"

declare show_nat.simps [simp del]

definition show_int :: "int \<Rightarrow> string" where
  "show_int i = (if i < 0 then CHR ''-'' # show_nat (nat (- i)) else show_nat (nat i))"

text \<open>A value sent by a socket client: a number or a string.\<close>

datatype jsval = JNum int | JStr string

fun toString :: "jsval \<Rightarrow> string" where
  "toString (JNum i) = show_int i"
| "toString (JStr s) = s"

text \<open>Truthiness of an optional string (\<open>undefined\<close> and \<open>''\<close> are falsy).\<close>

fun truthy :: "string option \<Rightarrow> bool" where
  "truthy None = False"
| "truthy (Some s) = (s \<noteq> [])"

section \<open>Documents\<close>

text \<open>
  The fields of \<open>models/Problem\<close> and \<open>models/Ward\<close>, with the two timestamps that
  \<open>timestamps: true\<close> adds. The user model is not part of the sources; a user carries the
  fields that the seeding routine in \<open>index.js\<close> sets.
\<close>

record user =
  u_id :: objid
  u_name :: string
  u_email :: string
  u_password :: string
  u_wardNumber :: int
  u_phone :: string
  u_address :: string
  u_role :: string

record problem =
  p_id :: objid
  title :: string
  description :: string
  category :: string
  priority :: string
  status :: string
  reportedBy :: objid
  p_wardNumber :: int
  location :: string
  images :: "string list"
  assignedTo :: "objid option"
  adminNotes :: "string option"
  resolvedAt :: "date option"
  estimatedResolutionDate :: "date option"
  isPublic :: bool
  p_createdAt :: date
  p_updatedAt :: date

record ward =
  w_wardNumber :: int
  w_name :: string
  w_description :: "string option"
  population :: int
  area :: "string option"
  rep_name :: "string option"
  rep_contact :: "string option"
  isActive :: bool
  w_createdAt :: date
  w_updatedAt :: date

definition categories :: "string list" where
  "categories = [''Water Supply'', ''Electricity'', ''Roads & Transportation'',
     ''Waste Management'', ''Healthcare'', ''Education'', ''Security'', ''Environment'',
     ''Infrastructure'', ''Other'']"

definition priorities :: "string list" where
  "priorities = [''Low'', ''Medium'', ''High'', ''Critical'']"

definition statuses :: "string list" where
  "statuses = [''Open'', ''In Progress'', ''Resolved'', ''Closed'']"

text \<open>The validators of \<open>problemSchema\<close>; \<open>save\<close> runs them on the whole document.\<close>

definition problem_valid :: "problem \<Rightarrow> bool" where
  "problem_valid p =
     (title p \<noteq> [] \<and> length (title p) \<le> 200 \<and>
      description p \<noteq> [] \<and> length (description p) \<le> 1000 \<and>
      category p \<in> set categories \<and>
      priority p \<in> set priorities \<and>
      status p \<in> set statuses \<and>
      1 \<le> p_wardNumber p \<and> p_wardNumber p \<le> 50 \<and>
      location p \<noteq> [] \<and>
      (case adminNotes p of None \<Rightarrow> True | Some n \<Rightarrow> length n \<le> 500))"

text \<open>The validators of \<open>wardSchema\<close> (uniqueness of \<open>wardNumber\<close> is an index, checked on write).\<close>

definition ward_valid :: "ward \<Rightarrow> bool" where
  "ward_valid x =
     (1 \<le> w_wardNumber x \<and> w_wardNumber x \<le> 50 \<and>
      w_name x \<noteq> [] \<and>
      (case w_description x of None \<Rightarrow> True | Some d \<Rightarrow> length d \<le> 500))"

section \<open>Events, effects and the state of the server\<close>

text \<open>
  A problem as a response shows it: the stored document and the references that
  \<open>populate\<close> resolved to \<open>name email\<close> summaries (\<open>None\<close>: not populated;
  \<open>Some None\<close>: populated, no such user).
\<close>

record user_ref =
  ur_id :: objid
  ur_name :: string
  ur_email :: string

record problem_view =
  doc :: problem
  reportedBy_pop :: "user_ref option option"
  assignedTo_pop :: "user_ref option option"

text \<open>What a \<open>problem-status-update\<close> client sends: echoed as it is.\<close>

record client_data =
  cd_wardNumber :: "jsval option"
  cd_rest :: string

datatype payload =
    NewProblemPayload objid string int int
  | UpdatedPayload objid string string int
  | ClientPayload client_data

record event =
  ev_name :: string
  ev_payload :: payload

datatype effect = ESave problem | EEmit string event

text \<open>
  The three collections, the generator of object ids, the rooms of the socket server (the
  ids of the sockets joined to each room), what each socket has received so far, and the
  effects of the handlers in the order they happened.
\<close>

record world =
  db_problems :: "problem list"
  db_wards :: "ward list"
  db_users :: "user list"
  next_id :: objid
  rooms :: "string \<Rightarrow> nat set"
  inbox :: "nat \<Rightarrow> event list"
  trace :: "effect list"

datatype resp_body =
    Errors "string list"
  | Message string
  | ProblemMsg string problem_view
  | ProblemOnly problem_view
  | ProblemPage "problem_view list" "int option" int nat
  | WardMsg string ward
  | WardDetail ward "problem_view list" "(string \<times> nat) list"

record response =
  code :: nat
  body :: resp_body

definition reply :: "nat \<Rightarrow> resp_body \<Rightarrow> response" where
  "reply c b = \<lparr>code = c, body = b\<rparr>"

section \<open>The socket server\<close>

definition ward_room :: "string \<Rightarrow> string" where
  "ward_room n = ''ward-'' @ n"

text \<open>\<open>socket.join(room)\<close>: rooms are sets, joining twice is joining once.\<close>

definition socket_join :: "world \<Rightarrow> nat \<Rightarrow> string \<Rightarrow> world" where
  "socket_join w sid room = w\<lparr>rooms := (rooms w)(room := insert sid (rooms w room))\<rparr>"

text \<open>\<open>io.to(room).emit(name, payload)\<close>: one copy to each socket in the room.\<close>

definition io_to_emit :: "world \<Rightarrow> string \<Rightarrow> event \<Rightarrow> world" where
  "io_to_emit w room ev =
     w\<lparr>inbox := (\<lambda>sid. if sid \<in> rooms w room then inbox w sid @ [ev] else inbox w sid),
       trace := trace w @ [EEmit room ev]\<rparr>"

text \<open>The events a connected socket can send, as \<open>io.on('connection')\<close> handles them.\<close>

datatype socket_event =
    JoinWard nat jsval
  | ProblemStatusUpdate nat client_data
  | Disconnect nat

fun socket_on :: "socket_event \<Rightarrow> world \<Rightarrow> world" where
  "socket_on (JoinWard sid wardNumber) w = socket_join w sid (ward_room (toString wardNumber))"
| "socket_on (ProblemStatusUpdate sid data) w =
     io_to_emit w
       (ward_room (case cd_wardNumber data of None \<Rightarrow> ''undefined'' | Some v \<Rightarrow> toString v))
       \<lparr>ev_name = ''problem-updated'', ev_payload = ClientPayload data\<rparr>"
| "socket_on (Disconnect sid) w = w\<lparr>rooms := (\<lambda>room. rooms w room - {sid})\<rparr>"

section \<open>The store\<close>

text \<open>
  \<open>doc.save()\<close> for a problem: the validators run first and a failure writes nothing. A
  new document is inserted with both timestamps set (an id already in the collection is a
  duplicate key error); a document read from the collection is written back over the one
  with its id, and \<open>updatedAt\<close> moves only when the document was modified.
\<close>

definition problem_save :: "world \<Rightarrow> bool \<Rightarrow> problem \<Rightarrow> date \<Rightarrow> string + (problem \<times> world)" where
  "problem_save w isNew p now =
     (if \<not> problem_valid p then Inl ''ValidationError''
      else case find (\<lambda>q. p_id q = p_id p) (db_problems w) of
        None \<Rightarrow>
          (if isNew then
             (let p' = p\<lparr>p_createdAt := now, p_updatedAt := now\<rparr>
              in Inr (p', w\<lparr>db_problems := db_problems w @ [p'], trace := trace w @ [ESave p']\<rparr>))
           else Inl ''DocumentNotFoundError'')
      | Some q \<Rightarrow>
          (if isNew then Inl ''E11000 duplicate key error''
           else
             (let p' = (if p = q then p else p\<lparr>p_updatedAt := now\<rparr>)
              in Inr (p', w\<lparr>db_problems :=
                               map (\<lambda>x. if p_id x = p_id p then p' else x) (db_problems w),
                             trace := trace w @ [ESave p']\<rparr>))))"

text \<open>\<open>Problem.findById\<close>; an id that does not cast to an object id makes the query throw.\<close>

definition findById :: "world \<Rightarrow> objid option \<Rightarrow> string + problem option" where
  "findById w i =
     (case i of None \<Rightarrow> Inl ''CastError''
      | Some k \<Rightarrow> Inr (find (\<lambda>q. p_id q = k) (db_problems w)))"

definition populate_user :: "world \<Rightarrow> objid \<Rightarrow> user_ref option" where
  "populate_user w i =
     map_option (\<lambda>u. \<lparr>ur_id = u_id u, ur_name = u_name u, ur_email = u_email u\<rparr>)
       (find (\<lambda>u. u_id u = i) (db_users w))"

definition populate_reportedBy :: "world \<Rightarrow> problem_view \<Rightarrow> problem_view" where
  "populate_reportedBy w v = v\<lparr>reportedBy_pop := Some (populate_user w (reportedBy (doc v)))\<rparr>"

definition populate_assignedTo :: "world \<Rightarrow> problem_view \<Rightarrow> problem_view" where
  "populate_assignedTo w v =
     v\<lparr>assignedTo_pop :=
         Some (case assignedTo (doc v) of None \<Rightarrow> None | Some i \<Rightarrow> populate_user w i)\<rparr>"

definition view :: "problem \<Rightarrow> problem_view" where
  "view p = \<lparr>doc = p, reportedBy_pop = None, assignedTo_pop = None\<rparr>"

section \<open>routes/problems.js\<close>

text \<open>
  A request body as the handlers read it: a missing field is \<open>None\<close>. \<open>b_wardNumber\<close>
  is a field a client may send along; the handler never reads it.
\<close>

record problem_body =
  b_title :: "string option"
  b_description :: "string option"
  b_category :: "string option"
  b_location :: "string option"
  b_priority :: "string option"
  b_images :: "string list option"
  b_wardNumber :: "int option"

text \<open>A validator reads a missing field as the empty string.\<close>

definition str_of :: "string option \<Rightarrow> string" where
  "str_of x = (case x of None \<Rightarrow> [] | Some s \<Rightarrow> s)"

definition check :: "bool \<Rightarrow> string \<Rightarrow> string list" where
  "check ok msg = (if ok then [] else [msg])"

definition validate_post_problem :: "problem_body \<Rightarrow> string list" where
  "validate_post_problem b =
     check (5 \<le> length (trim (str_of (b_title b))) \<and> length (trim (str_of (b_title b))) \<le> 200)
       ''Title must be between 5 and 200 characters'' @
     check (10 \<le> length (trim (str_of (b_description b))) \<and>
            length (trim (str_of (b_description b))) \<le> 1000)
       ''Description must be between 10 and 1000 characters'' @
     check (str_of (b_category b) \<in> set categories) ''Invalid category'' @
     check (5 \<le> length (trim (str_of (b_location b))))
       ''Location must be at least 5 characters'' @
     check (case b_priority b of None \<Rightarrow> True | Some x \<Rightarrow> x \<in> set priorities)
       ''Invalid priority''"

text \<open>
  \<open>new Problem({...})\<close> as the POST handler builds it: the fields of the validated and
  trimmed body, the requesting user's id and ward, the defaults of the schema for the rest.
  The schema trims \<open>title\<close>, \<open>description\<close> and \<open>location\<close> once more.
\<close>

definition new_Problem :: "objid \<Rightarrow> user \<Rightarrow> problem_body \<Rightarrow> problem" where
  "new_Problem i u b =
     \<lparr>p_id = i,
      title = trim (trim (str_of (b_title b))),
      description = trim (trim (str_of (b_description b))),
      category = str_of (b_category b),
      priority = (if truthy (b_priority b) then str_of (b_priority b) else ''Medium''),
      status = ''Open'',
      reportedBy = u_id u,
      p_wardNumber = u_wardNumber u,
      location = trim (trim (str_of (b_location b))),
      images = (case b_images b of None \<Rightarrow> [] | Some xs \<Rightarrow> xs),
      assignedTo = None,
      adminNotes = None,
      resolvedAt = None,
      estimatedResolutionDate = None,
      isPublic = True,
      p_createdAt = 0,
      p_updatedAt = 0\<rparr>"

definition new_problem_event :: "problem \<Rightarrow> event" where
  "new_problem_event p =
     \<lparr>ev_name = ''new-problem'',
      ev_payload = NewProblemPayload (p_id p) (title p) (p_wardNumber p) (p_wardNumber p)\<rparr>"

text \<open>
  \<open>POST /api/problems\<close>, after \<open>auth\<close> has set \<open>req.user\<close>. \<open>index.js\<close> stores the
  socket server under \<open>'io'\<close>, so the guard \<open>if (io)\<close> of the emit holds.
\<close>

definition post_problem :: "world \<Rightarrow> user \<Rightarrow> problem_body \<Rightarrow> date \<Rightarrow> response \<times> world" where
  "post_problem w u b now =
     (let errors = validate_post_problem b in
      if errors \<noteq> [] then (reply 400 (Errors errors), w)
      else
        let problem = new_Problem (next_id w) u b;
            w1 = w\<lparr>next_id := Suc (next_id w)\<rparr>
        in case problem_save w1 True problem now of
             Inl e \<Rightarrow> (reply 500 (Message ''Server error while reporting problem''), w1)
           | Inr (saved, w2) \<Rightarrow>
               let v = populate_reportedBy w2 (view saved);
                   w3 = io_to_emit w2 (ward_room (show_int (p_wardNumber saved)))
                          (new_problem_event saved)
               in (reply 201 (ProblemMsg ''Problem reported successfully'' v), w3))"

text \<open>
  A filter as \<open>Problem.find\<close> and \<open>Problem.countDocuments\<close> receive it. A key that was not
  set is \<open>None\<close>.
\<close>

record problem_query =
  q_wardNumber :: "jsnum option"
  q_status :: "string option"
  q_category :: "string option"

definition empty_query :: problem_query where
  "empty_query = \<lparr>q_wardNumber = None, q_status = None, q_category = None\<rparr>"

definition matches :: "problem_query \<Rightarrow> problem \<Rightarrow> bool" where
  "matches q p =
     ((case q_wardNumber q of None \<Rightarrow> True | Some NaN \<Rightarrow> False | Some (Num n) \<Rightarrow> p_wardNumber p = n) \<and>
      (case q_status q of None \<Rightarrow> True | Some s \<Rightarrow> status p = s) \<and>
      (case q_category q of None \<Rightarrow> True | Some c \<Rightarrow> category p = c))"

text \<open>\<open>.sort({ createdAt: -1 })\<close>: newest first; documents of one date keep their order.\<close>

definition newest_first :: "problem list \<Rightarrow> problem list" where
  "newest_first ps = sort_key (\<lambda>p. - p_createdAt p) ps"

text \<open>\<open>.limit(n)\<close>: zero is no limit and a negative limit is its absolute value.\<close>

definition limit_to :: "int \<Rightarrow> 'a list \<Rightarrow> 'a list" where
  "limit_to n xs = (if n = 0 then xs else take (nat \<bar>n\<bar>) xs)"

text \<open>
  \<open>Problem.find(query).sort(...).limit(limit).skip(skip)\<close>: the filter is cast first (a
  \<open>NaN\<close> ward number does not cast), the store refuses a negative skip, and the skip is
  applied before the limit.
\<close>

definition find_problems :: "world \<Rightarrow> problem_query \<Rightarrow> int \<Rightarrow> int \<Rightarrow> string + problem list" where
  "find_problems w q skip limit =
     (if q_wardNumber q = Some NaN then Inl ''CastError''
      else if skip < 0 then Inl ''MongoServerError''
      else Inr (limit_to limit (drop (nat skip) (newest_first (filter (matches q) (db_problems w))))))"

definition countDocuments :: "world \<Rightarrow> problem_query \<Rightarrow> string + nat" where
  "countDocuments w q =
     (if q_wardNumber q = Some NaN then Inl ''CastError''
      else Inr (length (filter (matches q) (db_problems w))))"

text \<open>\<open>Math.ceil(total / limit)\<close>; a zero limit gives no finite number (\<open>null\<close> in JSON).\<close>

definition totalPages :: "nat \<Rightarrow> int \<Rightarrow> int option" where
  "totalPages tot limit = (if limit = 0 then None else Some (- ((- int tot) div limit)))"

text \<open>
  The query string of the two listing routes. \<open>lq_page\<close> and \<open>lq_limit\<close> are the integers
  that the strings \<open>page\<close> and \<open>limit\<close> denote; the defaults are 1 and 10.
\<close>

record list_query =
  lq_status :: "string option"
  lq_category :: "string option"
  lq_wardNumber :: "string option"
  lq_page :: "int option"
  lq_limit :: "int option"

definition page_of :: "list_query \<Rightarrow> int" where
  "page_of q = (case lq_page q of None \<Rightarrow> 1 | Some p \<Rightarrow> p)"

definition limit_of :: "list_query \<Rightarrow> int" where
  "limit_of q = (case lq_limit q of None \<Rightarrow> 10 | Some l \<Rightarrow> l)"

definition with_status_category :: "list_query \<Rightarrow> problem_query \<Rightarrow> problem_query" where
  "with_status_category q query =
     (let query1 = (if truthy (lq_status q) then query\<lparr>q_status := lq_status q\<rparr> else query)
      in if truthy (lq_category q) then query1\<lparr>q_category := lq_category q\<rparr> else query1)"

definition populate_both :: "world \<Rightarrow> problem \<Rightarrow> problem_view" where
  "populate_both w p = populate_assignedTo w (populate_reportedBy w (view p))"

text \<open>The part the two listing routes share: find, count, respond.\<close>

definition list_page :: "world \<Rightarrow> list_query \<Rightarrow> problem_query \<Rightarrow> string \<Rightarrow> response" where
  "list_page w q query failure =
     (case find_problems w query ((page_of q - 1) * limit_of q) (limit_of q) of
        Inl e \<Rightarrow> reply 500 (Message failure)
      | Inr ps \<Rightarrow>
          (case countDocuments w query of
             Inl e \<Rightarrow> reply 500 (Message failure)
           | Inr tot \<Rightarrow>
               reply 200 (ProblemPage (map (populate_both w) ps)
                            (totalPages tot (limit_of q)) (page_of q) tot)))"

text \<open>\<open>GET /api/problems\<close>.\<close>

definition get_problems :: "world \<Rightarrow> user \<Rightarrow> list_query \<Rightarrow> response" where
  "get_problems w u q =
     (let query =
            (if u_role u \<noteq> ''admin'' then empty_query\<lparr>q_wardNumber := Some (Num (u_wardNumber u))\<rparr>
             else if truthy (lq_wardNumber q)
               then empty_query\<lparr>q_wardNumber := Some (parseInt (str_of (lq_wardNumber q)))\<rparr>
             else empty_query)
      in list_page w q (with_status_category q query) ''Server error while fetching problems'')"

text \<open>\<open>GET /api/problems/:id\<close>.\<close>

definition get_problem :: "world \<Rightarrow> user \<Rightarrow> objid option \<Rightarrow> response" where
  "get_problem w u i =
     (case findById w i of
        Inl e \<Rightarrow> reply 500 (Message ''Server error while fetching problem'')
      | Inr None \<Rightarrow> reply 404 (Message ''Problem not found'')
      | Inr (Some problem) \<Rightarrow>
          if u_role u \<noteq> ''admin'' \<and> p_wardNumber problem \<noteq> u_wardNumber u
          then reply 403 (Message ''Access denied'')
          else reply 200 (ProblemOnly (populate_both w problem)))"

text \<open>
  \<open>problemSchema.methods.updateStatus\<close>. \<open>t_now\<close> is what \<open>new Date()\<close> returns and
  \<open>t_save\<close> the time of the save. The schema trims \<open>adminNotes\<close>.
\<close>

definition updateStatus ::
  "world \<Rightarrow> problem \<Rightarrow> string \<Rightarrow> string option \<Rightarrow> date \<Rightarrow> date \<Rightarrow> string + (problem \<times> world)" where
  "updateStatus w this newStatus notes t_now t_save =
     (let this1 = this\<lparr>status := newStatus\<rparr>;
          this2 = (if truthy notes then this1\<lparr>adminNotes := Some (trim (str_of notes))\<rparr> else this1);
          this3 = (if newStatus = ''Resolved'' \<or> newStatus = ''Closed''
                   then this2\<lparr>resolvedAt := Some t_now\<rparr> else this2)
      in problem_save w False this3 t_save)"

text \<open>
  The body of \<open>PUT /api/problems/:id/status\<close>. \<open>sb_assignedTo\<close> is \<open>None\<close> for a missing
  or falsy value, \<open>Some None\<close> for a value that does not cast to an object id.
\<close>

record status_body =
  sb_status :: "string option"
  sb_adminNotes :: "string option"
  sb_assignedTo :: "objid option option"

definition validate_put_status :: "status_body \<Rightarrow> string list" where
  "validate_put_status b =
     check (str_of (sb_status b) \<in> set statuses) ''Invalid status'' @
     check (case sb_adminNotes b of None \<Rightarrow> True | Some n \<Rightarrow> length n \<le> 500)
       ''Admin notes must be less than 500 characters''"

definition problem_updated_event :: "problem \<Rightarrow> event" where
  "problem_updated_event p =
     \<lparr>ev_name = ''problem-updated'',
      ev_payload = UpdatedPayload (p_id p) (title p) (status p) (p_wardNumber p)\<rparr>"

text \<open>
  \<open>PUT /api/problems/:id/status\<close>, after \<open>adminAuth\<close>. The three dates are the clock at
  \<open>new Date()\<close>, at the save inside \<open>updateStatus\<close> and at the save of the assignment.
\<close>

definition put_problem_status ::
  "world \<Rightarrow> objid option \<Rightarrow> status_body \<Rightarrow> date \<Rightarrow> date \<Rightarrow> date \<Rightarrow> response \<times> world" where
  "put_problem_status w i b t1 t2 t3 =
     (let errors = validate_put_status b;
          failure = reply 500 (Message ''Server error while updating problem'')
      in if errors \<noteq> [] then (reply 400 (Errors errors), w)
      else case findById w i of
        Inl e \<Rightarrow> (failure, w)
      | Inr None \<Rightarrow> (reply 404 (Message ''Problem not found''), w)
      | Inr (Some problem) \<Rightarrow>
          (case updateStatus w problem (str_of (sb_status b)) (sb_adminNotes b) t1 t2 of
             Inl e \<Rightarrow> (failure, w)
           | Inr (p1, w1) \<Rightarrow>
               (case (case sb_assignedTo b of
                        None \<Rightarrow> Inr (p1, w1)
                      | Some None \<Rightarrow> Inl ''CastError''
                      | Some (Some a) \<Rightarrow> problem_save w1 False (p1\<lparr>assignedTo := Some a\<rparr>) t3) of
                  Inl e \<Rightarrow> (failure, w1)
                | Inr (p2, w2) \<Rightarrow>
                    (let v = populate_both w2 p2;
                         w3 = io_to_emit w2 (ward_room (show_int (p_wardNumber p2)))
                                (problem_updated_event p2)
                     in (reply 200 (ProblemMsg ''Problem status updated successfully'' v), w3)))))"

section \<open>routes/wards.js\<close>

text \<open>\<open>Ward.findOne(filter)\<close>: the first ward with the number, active when asked so.\<close>

definition ward_findOne :: "world \<Rightarrow> jsnum \<Rightarrow> bool \<Rightarrow> string + ward option" where
  "ward_findOne w n activeOnly =
     (case n of
        NaN \<Rightarrow> Inl ''CastError''
      | Num k \<Rightarrow> Inr (find (\<lambda>x. w_wardNumber x = k \<and> (isActive x \<or> \<not> activeOnly)) (db_wards w)))"

text \<open>\<open>$group\<close> by status with \<open>$sum: 1\<close>: each status that occurs, with its count.\<close>

definition group_count :: "string list \<Rightarrow> (string \<times> nat) list" where
  "group_count xs = map (\<lambda>k. (k, count_list xs k)) (remdups xs)"

text \<open>\<open>GET /api/wards/:wardNumber\<close>, after \<open>auth\<close> has set \<open>req.user\<close>.\<close>

definition get_ward :: "world \<Rightarrow> user \<Rightarrow> string \<Rightarrow> response" where
  "get_ward w u param =
     (let wardNumber = parseInt param
      in case ward_findOne w wardNumber True of
           Inl e \<Rightarrow> reply 500 (Message ''Server error while fetching ward details'')
         | Inr None \<Rightarrow> reply 404 (Message ''Ward not found'')
         | Inr (Some ward) \<Rightarrow>
             (let inWard = filter (matches (empty_query\<lparr>q_wardNumber := Some wardNumber\<rparr>))
                             (db_problems w);
                  recentProblems =
                    map (\<lambda>p. populate_reportedBy w (view p)) (limit_to 5 (newest_first inWard));
                  stats = group_count (map status inWard)
              in reply 200 (WardDetail ward recentProblems stats)))"

text \<open>
  The body of the two writing ward routes; a missing field is \<open>None\<close>.
  \<open>representative\<close> is one nested object with an optional name and contact.
\<close>

record ward_body =
  wb_wardNumber :: "int option"
  wb_name :: "string option"
  wb_description :: "string option"
  wb_population :: "int option"
  wb_area :: "string option"
  wb_representative :: "(string option \<times> string option) option"
  wb_isActive :: "bool option"

definition validate_post_ward :: "ward_body \<Rightarrow> string list" where
  "validate_post_ward b =
     check (case wb_wardNumber b of None \<Rightarrow> False | Some n \<Rightarrow> 1 \<le> n \<and> n \<le> 50)
       ''Ward number must be between 1 and 50'' @
     check (2 \<le> length (trim (str_of (wb_name b)))) ''Ward name must be at least 2 characters'' @
     check (case wb_description b of None \<Rightarrow> True | Some d \<Rightarrow> length (trim d) \<le> 500)
       ''Description must be less than 500 characters'' @
     check (case wb_population b of None \<Rightarrow> True | Some n \<Rightarrow> 0 \<le> n)
       ''Population must be a positive number''"

text \<open>
  \<open>new Ward({...})\<close> as the POST handler builds it from the validated body; the
  schema trims the strings and supplies the defaults.
\<close>

definition new_Ward :: "ward_body \<Rightarrow> ward" where
  "new_Ward b =
     \<lparr>w_wardNumber = (case wb_wardNumber b of None \<Rightarrow> 0 | Some n \<Rightarrow> n),
      w_name = trim (trim (str_of (wb_name b))),
      w_description = map_option (\<lambda>d. trim (trim d)) (wb_description b),
      population = (case wb_population b of None \<Rightarrow> 0 | Some n \<Rightarrow> n),
      area = map_option trim (wb_area b),
      rep_name = (case wb_representative b of None \<Rightarrow> None | Some (a, c) \<Rightarrow> map_option trim a),
      rep_contact = (case wb_representative b of None \<Rightarrow> None | Some (a, c) \<Rightarrow> map_option trim c),
      isActive = True,
      w_createdAt = 0,
      w_updatedAt = 0\<rparr>"

text \<open>\<open>ward.save()\<close> for a new ward: validators, then the unique index on \<open>wardNumber\<close>.\<close>

definition ward_save :: "world \<Rightarrow> ward \<Rightarrow> date \<Rightarrow> string + (ward \<times> world)" where
  "ward_save w x now =
     (if \<not> ward_valid x then Inl ''ValidationError''
      else if w_wardNumber x \<in> set (map w_wardNumber (db_wards w)) then Inl ''E11000 duplicate key error''
      else (let x' = x\<lparr>w_createdAt := now, w_updatedAt := now\<rparr>
            in Inr (x', w\<lparr>db_wards := db_wards w @ [x']\<rparr>)))"

text \<open>\<open>POST /api/wards\<close>, after \<open>adminAuth\<close>.\<close>

definition post_ward :: "world \<Rightarrow> ward_body \<Rightarrow> date \<Rightarrow> response \<times> world" where
  "post_ward w b now =
     (let errors = validate_post_ward b;
          failure = reply 500 (Message ''Server error while creating ward'')
      in if errors \<noteq> [] then (reply 400 (Errors errors), w)
      else case ward_findOne w (case wb_wardNumber b of None \<Rightarrow> NaN | Some n \<Rightarrow> Num n) False of
        Inl e \<Rightarrow> (failure, w)
      | Inr (Some existingWard) \<Rightarrow> (reply 400 (Message ''Ward with this number already exists''), w)
      | Inr None \<Rightarrow>
          (case ward_save w (new_Ward b) now of
             Inl e \<Rightarrow> (failure, w)
           | Inr (ward, w1) \<Rightarrow> (reply 201 (WardMsg ''Ward created successfully'' ward), w1)))"

definition validate_put_ward :: "ward_body \<Rightarrow> string list" where
  "validate_put_ward b =
     check (case wb_name b of None \<Rightarrow> True | Some n \<Rightarrow> 2 \<le> length (trim n))
       ''Ward name must be at least 2 characters'' @
     check (case wb_description b of None \<Rightarrow> True | Some d \<Rightarrow> length (trim d) \<le> 500)
       ''Description must be less than 500 characters'' @
     check (case wb_population b of None \<Rightarrow> True | Some n \<Rightarrow> 0 \<le> n)
       ''Population must be a positive number''"

text \<open>
  \<open>{ $set: updates }\<close>: every field of the body that is there replaces the ward's; a
  \<open>representative\<close> replaces the nested object as a whole.
\<close>

definition apply_updates :: "ward_body \<Rightarrow> ward \<Rightarrow> ward" where
  "apply_updates b x =
     x\<lparr>w_wardNumber := (case wb_wardNumber b of None \<Rightarrow> w_wardNumber x | Some n \<Rightarrow> n),
       w_name := (case wb_name b of None \<Rightarrow> w_name x | Some n \<Rightarrow> trim (trim n)),
       w_description := (case wb_description b of None \<Rightarrow> w_description x
                         | Some d \<Rightarrow> Some (trim (trim d))),
       population := (case wb_population b of None \<Rightarrow> population x | Some n \<Rightarrow> n),
       area := (case wb_area b of None \<Rightarrow> area x | Some a \<Rightarrow> Some (trim a)),
       rep_name := (case wb_representative b of None \<Rightarrow> rep_name x
                    | Some (a, c) \<Rightarrow> map_option trim a),
       rep_contact := (case wb_representative b of None \<Rightarrow> rep_contact x
                       | Some (a, c) \<Rightarrow> map_option trim c),
       isActive := (case wb_isActive b of None \<Rightarrow> isActive x | Some a \<Rightarrow> a)\<rparr>"

text \<open>The schema validators that \<open>runValidators: true\<close> runs, on the paths of the update.\<close>

definition updates_valid :: "ward_body \<Rightarrow> bool" where
  "updates_valid b =
     ((case wb_wardNumber b of None \<Rightarrow> True | Some n \<Rightarrow> 1 \<le> n \<and> n \<le> 50) \<and>
      (case wb_name b of None \<Rightarrow> True | Some n \<Rightarrow> trim (trim n) \<noteq> []) \<and>
      (case wb_description b of None \<Rightarrow> True | Some d \<Rightarrow> length (trim (trim d)) \<le> 500))"

text \<open>Replace the first element that satisfies the test.\<close>

fun update_first :: "('a \<Rightarrow> bool) \<Rightarrow> ('a \<Rightarrow> 'a) \<Rightarrow> 'a list \<Rightarrow> 'a list" where
  "update_first P f [] = []"
| "update_first P f (x # xs) = (if P x then f x # xs else x # update_first P f xs)"

text \<open>
  \<open>Ward.findOneAndUpdate({ wardNumber }, { $set: updates }, { new: true, runValidators: true })\<close>:
  the filter has no \<open>isActive\<close> key. The update is cast and validated before the store
  sees it; the store refuses a ward number that another ward has; \<open>updatedAt\<close> is set.
\<close>

definition findOneAndUpdate :: "world \<Rightarrow> jsnum \<Rightarrow> ward_body \<Rightarrow> date \<Rightarrow> string + (ward option \<times> world)" where
  "findOneAndUpdate w n b now =
     (case n of
        NaN \<Rightarrow> Inl ''CastError''
      | Num k \<Rightarrow>
          if \<not> updates_valid b then Inl ''ValidationError''
          else case find (\<lambda>x. w_wardNumber x = k) (db_wards w) of
            None \<Rightarrow> Inr (None, w)
          | Some x \<Rightarrow>
              (let x' = (apply_updates b x)\<lparr>w_updatedAt := now\<rparr>
               in if w_wardNumber x' \<noteq> k \<and> w_wardNumber x' \<in> set (map w_wardNumber (db_wards w))
                  then Inl ''E11000 duplicate key error''
                  else Inr (Some x',
                            w\<lparr>db_wards := update_first (\<lambda>y. w_wardNumber y = k) (\<lambda>y. x') (db_wards w)\<rparr>)))"

text \<open>\<open>PUT /api/wards/:wardNumber\<close>, after \<open>adminAuth\<close>.\<close>

definition put_ward :: "world \<Rightarrow> string \<Rightarrow> ward_body \<Rightarrow> date \<Rightarrow> response \<times> world" where
  "put_ward w param b now =
     (let errors = validate_put_ward b
      in if errors \<noteq> [] then (reply 400 (Errors errors), w)
      else case findOneAndUpdate w (parseInt param) b now of
        Inl e \<Rightarrow> (reply 500 (Message ''Server error while updating ward''), w)
      | Inr (None, w1) \<Rightarrow> (reply 404 (Message ''Ward not found''), w1)
      | Inr (Some ward, w1) \<Rightarrow> (reply 200 (WardMsg ''Ward updated successfully'' ward), w1))"

text \<open>\<open>GET /api/wards/:wardNumber/problems\<close>, after \<open>auth\<close> has set \<open>req.user\<close>.\<close>

definition get_ward_problems :: "world \<Rightarrow> user \<Rightarrow> string \<Rightarrow> list_query \<Rightarrow> response" where
  "get_ward_problems w u param q =
     (let wardNumber = parseInt param
      in if u_role u \<noteq> ''admin'' \<and> wardNumber \<noteq> Num (u_wardNumber u)
         then reply 403 (Message ''Access denied'')
         else list_page w q (with_status_category q (empty_query\<lparr>q_wardNumber := Some wardNumber\<rparr>))
                ''Server error while fetching ward problems'')"

section \<open>index.js: the data of the first start\<close>

text \<open>
  \<open>Math.floor(Math.random() * m)\<close> is some number below \<open>m\<close>: the \<open>k\<close>-th call of
  \<open>Math.random\<close> is \<open>rand k\<close>, read modulo \<open>m\<close>.
\<close>

definition default_ward :: "(nat \<Rightarrow> nat) \<Rightarrow> nat \<Rightarrow> ward" where
  "default_ward rand i =
     \<lparr>w_wardNumber = int i,
      w_name = trim (''Ward '' @ show_nat i),
      w_description = Some (trim (''Area '' @ show_nat i @ '' of Swatch Village'')),
      population = int (rand (3 * (i - 1)) mod 1000 + 500),
      area = Some (trim (show_nat (rand (3 * (i - 1) + 1) mod 5 + 2) @ '' sq km'')),
      rep_name = Some (trim (''Representative '' @ show_nat i)),
      rep_contact = Some (trim (''+91'' @ show_nat (rand (3 * (i - 1) + 2) mod 9000000000 + 1000000000))),
      isActive = True,
      w_createdAt = 0,
      w_updatedAt = 0\<rparr>"

text \<open>The loop \<open>for (let i = 1; i <= 10; i++) defaultWards.push(...)\<close>.\<close>

function defaultWards_loop :: "(nat \<Rightarrow> nat) \<Rightarrow> nat \<Rightarrow> ward list \<Rightarrow> ward list" where
  "defaultWards_loop rand i defaultWards =
     (if i \<le> 10 then defaultWards_loop rand (i + 1) (defaultWards @ [default_ward rand i])
      else defaultWards)"
  by pat_completeness auto
termination
  by (relation "measure (\<lambda>(rand, i, defaultWards). 11 - i)") auto

declare defaultWards_loop.simps [simp del]

text \<open>
  \<open>Ward.insertMany(docs)\<close>: every document is validated first and nothing is written when
  one fails; then they are inserted in order, up to the first duplicate ward number.
\<close>

fun insert_ordered :: "ward list \<Rightarrow> ward list \<Rightarrow> ward list \<times> bool" where
  "insert_ordered coll [] = (coll, True)"
| "insert_ordered coll (d # ds) =
     (if w_wardNumber d \<in> set (map w_wardNumber coll) then (coll, False)
      else insert_ordered (coll @ [d]) ds)"

definition insertMany :: "world \<Rightarrow> ward list \<Rightarrow> date \<Rightarrow> world \<times> bool" where
  "insertMany w docs now =
     (if list_all ward_valid docs
      then (let (coll, ok) = insert_ordered (db_wards w)
                               (map (\<lambda>d. d\<lparr>w_createdAt := now, w_updatedAt := now\<rparr>) docs)
            in (w\<lparr>db_wards := coll\<rparr>, ok))
      else (w, False))"

text \<open>
  Modelled from the spec: \<open>models/User\<close> is not among the sources. A new user is saved by
  adding the document to the collection under a fresh id, with the password replaced by its
  hash (the seeded administrator has a fixed known credential, hashed on save).
\<close>

definition user_save :: "(string \<Rightarrow> string) \<Rightarrow> world \<Rightarrow> user \<Rightarrow> world" where
  "user_save hash w u =
     w\<lparr>db_users := db_users w @ [u\<lparr>u_id := next_id w, u_password := hash (u_password u)\<rparr>],
       next_id := Suc (next_id w)\<rparr>"

definition adminUser :: user where
  "adminUser =
     \<lparr>u_id = 0,
      u_name = ''Admin User'',
      u_email = ''admin@swatchvillage.com'',
      u_password = ''admin123'',
      u_wardNumber = 1,
      u_phone = ''9999999999'',
      u_address = ''Administrative Office'',
      u_role = ''admin''\<rparr>"

text \<open>
  \<open>initializeDefaultData\<close>. An error of \<open>insertMany\<close> leaves the \<open>try\<close> block, so the
  administrator is not looked for then.
\<close>

definition initializeDefaultData :: "(nat \<Rightarrow> nat) \<Rightarrow> (string \<Rightarrow> string) \<Rightarrow> world \<Rightarrow> date \<Rightarrow> world" where
  "initializeDefaultData rand hash w now =
     (let wardCount = length (db_wards w);
          (w1, ok) = (if wardCount = 0 then insertMany w (defaultWards_loop rand 1 []) now
                      else (w, True))
      in if \<not> ok then w1
         else (case find (\<lambda>u. u_role u = ''admin'') (db_users w1) of
                 Some adminExists \<Rightarrow> w1
               | None \<Rightarrow> user_save hash w1 adminUser))"

section \<open>Predicates of the properties\<close>

definition is_new_problem :: "event \<Rightarrow> bool" where
  "is_new_problem ev = (ev_name ev = ''new-problem'')"

text \<open>
  An effect sequence in which every emit comes after a save, goes to the room of the ward
  of the problem saved last, and carries the fields of that problem as saved.
\<close>

fun emit_follows_save :: "problem option \<Rightarrow> effect list \<Rightarrow> bool" where
  "emit_follows_save saved [] = True"
| "emit_follows_save saved (ESave p # es) = emit_follows_save (Some p) es"
| "emit_follows_save saved (EEmit room ev # es) =
     ((case saved of
         None \<Rightarrow> False
       | Some p \<Rightarrow> room = ward_room (show_int (p_wardNumber p)) \<and>
                   (ev = new_problem_event p \<or> ev = problem_updated_event p)) \<and>
      emit_follows_save saved es)"

section \<open>Sample data\<close>

definition resident3 :: user where
  "resident3 =
     \<lparr>u_id = 7, u_name = ''Asha'', u_email = ''asha@example.com'', u_password = ''x'',
      u_wardNumber = 3, u_phone = ''9000000000'', u_address = ''12 Canal Road'',
      u_role = ''resident''\<rparr>"

definition pipe_body :: problem_body where
  "pipe_body =
     \<lparr>b_title = Some ''Broken pipe'', b_description = Some ''Water leaking since Monday'',
      b_category = Some ''Water Supply'', b_location = Some ''Canal Road'',
      b_priority = None, b_images = None, b_wardNumber = Some 9\<rparr>"

definition empty_world :: world where
  "empty_world =
     \<lparr>db_problems = [], db_wards = [], db_users = [], next_id = 1,
      rooms = (\<lambda>room. {}), inbox = (\<lambda>sid. []), trace = []\<rparr>"

definition joined_world :: world where
  "joined_world =
     fold socket_on [JoinWard 1 (JNum 3), JoinWard 2 (JStr ''3''), JoinWard 3 (JNum 5)] empty_world"

definition reported_world :: world where
  "reported_world = snd (post_problem joined_world resident3 pipe_body 1000)"

definition pipe_problem :: problem where
  "pipe_problem =
     \<lparr>p_id = 1, title = ''Broken pipe'', description = ''Water leaking since Monday'',
      category = ''Water Supply'', priority = ''Medium'', status = ''Open'', reportedBy = 7,
      p_wardNumber = 3, location = ''Canal Road'', images = [], assignedTo = None,
      adminNotes = None, resolvedAt = None, estimatedResolutionDate = None, isPublic = True,
      p_createdAt = 1000, p_updatedAt = 1000\<rparr>"

definition resolve_body :: status_body where
  "resolve_body = \<lparr>sb_status = Some ''Resolved'', sb_adminNotes = Some ''Pipe replaced'',
                    sb_assignedTo = None\<rparr>"

definition lamp_problem :: problem where
  "lamp_problem =
     \<lparr>p_id = 2, title = ''Street lamp out'', description = ''No light at the crossing'',
      category = ''Electricity'', priority = ''High'', status = ''Open'', reportedBy = 8,
      p_wardNumber = 5, location = ''Mill Lane'', images = [], assignedTo = None,
      adminNotes = None, resolvedAt = None, estimatedResolutionDate = None, isPublic = True,
      p_createdAt = 1500, p_updatedAt = 1500\<rparr>"

definition two_ward_world :: world where
  "two_ward_world = empty_world\<lparr>db_problems := [pipe_problem, lamp_problem]\<rparr>"

definition ask_ward5 :: list_query where
  "ask_ward5 = \<lparr>lq_status = None, lq_category = None, lq_wardNumber = Some ''5'',
                 lq_page = None, lq_limit = None\<rparr>"

definition ask_all :: list_query where
  "ask_all = \<lparr>lq_status = None, lq_category = None, lq_wardNumber = None,
               lq_page = None, lq_limit = None\<rparr>"

definition sample_ward :: "int \<Rightarrow> bool \<Rightarrow> ward" where
  "sample_ward n active =
     \<lparr>w_wardNumber = n, w_name = ''Ward'', w_description = None, population = 700, area = None,
      rep_name = None, rep_contact = None, isActive = active, w_createdAt = 100, w_updatedAt = 100\<rparr>"

definition ward_world :: world where
  "ward_world = two_ward_world\<lparr>db_wards := [sample_ward 3 True, sample_ward 4 False, sample_ward 5 True]\<rparr>"

definition rename_body :: ward_body where
  "rename_body =
     \<lparr>wb_wardNumber = None, wb_name = Some ''Old Mill'', wb_description = None,
      wb_population = None, wb_area = None, wb_representative = None, wb_isActive = None\<rparr>"

definition ward4_body :: ward_body where
  "ward4_body = rename_body\<lparr>wb_wardNumber := Some 4\<rparr>"

section \<open>Properties of the helpers\<close>

lemma dropWhile_fix: "xs = [] \<or> \<not> P (hd xs) \<Longrightarrow> dropWhile P xs = xs"
  by (cases xs) auto

lemma trim_trim: "trim (trim s) = trim s"
proof -
  define t where "t = dropWhile is_ws s"
  define u where "u = dropWhile is_ws (rev t)"
  have tr: "trim s = rev u" by (simp add: trim_def t_def u_def)
  show ?thesis
  proof (cases "u = []")
    case True
    then have e: "trim s = []" using tr by simp
    have "trim [] = []" by (simp add: trim_def)
    then show ?thesis unfolding e .
  next
    case False
    have hu: "\<not> is_ws (hd u)" using False unfolding u_def by (simp add: hd_dropWhile)
    have "\<exists>d. rev t = d @ u" unfolding u_def
      by (metis takeWhile_dropWhile_id)
    then obtain d where d: "rev t = d @ u" by blast
    then have t_eq: "t = rev u @ rev d" by (metis rev_append rev_rev_ident)
    have tne: "t \<noteq> []" using t_eq False by simp
    have "\<not> is_ws (hd t)" using tne unfolding t_def by (simp add: hd_dropWhile)
    then have hru: "\<not> is_ws (hd (rev u))" using t_eq False by simp
    have 1: "dropWhile is_ws (rev u) = rev u" using hru by (intro dropWhile_fix) simp
    have 2: "dropWhile is_ws u = u" using hu by (intro dropWhile_fix) simp
    show ?thesis unfolding tr by (simp add: trim_def 1 2)
  qed
qed

lemma check_Nil: "check ok msg = [] \<longleftrightarrow> ok"
  by (simp add: check_def)

lemma post_valid:
  assumes v: "validate_post_problem b = []" and lo: "1 \<le> u_wardNumber u" and hi: "u_wardNumber u \<le> 50"
  shows "problem_valid (new_Problem i u b)"
proof -
  from v have t: "5 \<le> length (trim (str_of (b_title b)))" "length (trim (str_of (b_title b))) \<le> 200"
    and d: "10 \<le> length (trim (str_of (b_description b)))"
           "length (trim (str_of (b_description b))) \<le> 1000"
    and c: "str_of (b_category b) \<in> set categories"
    and l: "5 \<le> length (trim (str_of (b_location b)))"
    and p: "case b_priority b of None \<Rightarrow> True | Some x \<Rightarrow> x \<in> set priorities"
    by (simp_all add: validate_post_problem_def check_Nil)
  have pr: "(if truthy (b_priority b) then str_of (b_priority b) else ''Medium'') \<in> set priorities"
  proof (cases "b_priority b")
    case None
    then show ?thesis by (simp add: priorities_def)
  next
    case (Some x)
    with p have "x \<in> set priorities" by simp
    with Some show ?thesis by (simp add: str_of_def priorities_def)
  qed
  have ne: "trim (str_of (b_title b)) \<noteq> []" "trim (str_of (b_description b)) \<noteq> []"
    "trim (str_of (b_location b)) \<noteq> []"
    using t d l by auto
  show ?thesis
    unfolding problem_valid_def new_Problem_def
    using t d c ne pr lo hi by (simp add: trim_trim statuses_def)
qed

section \<open>Reading back a rendered number\<close>

lemma digit_char_cases:
  fixes d :: nat
  assumes "d < 10"
  shows "d = 0 \<or> d = 1 \<or> d = 2 \<or> d = 3 \<or> d = 4 \<or> d = 5 \<or> d = 6 \<or> d = 7 \<or> d = 8 \<or> d = 9"
  using assms by arith

lemma digit_of_digit_char: "d < 10 \<Longrightarrow> digit_of 10 (digit_char d) = Some d"
  using digit_char_cases[of d] by (auto simp: digit_of_def digit_char_def)

lemma digit_char_plain:
  "d < 10 \<Longrightarrow> \<not> is_ws (digit_char d) \<and> digit_char d \<noteq> CHR ''-'' \<and> digit_char d \<noteq> CHR ''+''
     \<and> digit_char d \<noteq> CHR ''x'' \<and> digit_char d \<noteq> CHR ''X''"
  using digit_char_cases[of d] by (auto simp: digit_char_def is_ws_def)

lemma read_digits_append:
  "\<forall>c \<in> set xs. digit_of r c \<noteq> None \<Longrightarrow>
     read_digits r acc (xs @ ys) = read_digits r (read_digits r acc xs) ys"
  by (induction xs arbitrary: acc) (auto split: option.splits)

lemma show_nat_digits: "c \<in> set (show_nat n) \<Longrightarrow> \<exists>d < 10. c = digit_char d"
proof (induction n arbitrary: c rule: show_nat.induct)
  case (1 n)
  show ?case
  proof (cases "n < 10")
    case True
    then show ?thesis using "1.prems" by (auto simp: show_nat.simps[of n])
  next
    case False
    from "1.prems" False have "c \<in> set (show_nat (n div 10)) \<or> c = digit_char (n mod 10)"
      by (auto simp add: show_nat.simps[of n])
    then show ?thesis
    proof
      assume "c \<in> set (show_nat (n div 10))"
      then show ?thesis using "1.IH"[OF False] by blast
    next
      assume "c = digit_char (n mod 10)"
      moreover have "n mod 10 < 10" by simp
      ultimately show ?thesis by blast
    qed
  qed
qed

lemma show_nat_not_Nil: "show_nat n \<noteq> []"
  by (simp add: show_nat.simps[of n])

lemma read_show_nat: "read_digits 10 None (show_nat n) = Some n"
proof (induction n rule: show_nat.induct)
  case (1 n)
  show ?case
  proof (cases "n < 10")
    case True
    then show ?thesis by (simp add: show_nat.simps[of n] digit_of_digit_char)
  next
    case False
    have all: "\<forall>c \<in> set (show_nat (n div 10)). digit_of 10 c \<noteq> None"
    proof
      fix c assume "c \<in> set (show_nat (n div 10))"
      then obtain d where "d < 10" "c = digit_char d" using show_nat_digits by blast
      then show "digit_of 10 c \<noteq> None" by (simp add: digit_of_digit_char)
    qed
    have "read_digits 10 None (show_nat n)
            = read_digits 10 (read_digits 10 None (show_nat (n div 10))) [digit_char (n mod 10)]"
      using False read_digits_append[OF all] by (simp add: show_nat.simps[of n])
    also have "\<dots> = read_digits 10 (Some (n div 10)) [digit_char (n mod 10)]"
      using "1.IH"[OF False] by simp
    also have "\<dots> = Some n" by (simp add: digit_of_digit_char)
    finally show ?thesis .
  qed
qed

lemma second_char_no_x:
  assumes "show_nat n = a # b # r'"
  shows "b \<noteq> CHR ''x'' \<and> b \<noteq> CHR ''X''"
proof -
  have "b \<in> set (show_nat n)" unfolding assms by simp
  then obtain e where e: "e < 10" "b = digit_char e" using show_nat_digits[of b n] by blast
  show ?thesis using digit_char_plain[OF e(1)] unfolding e(2) by blast
qed

lemma show_nat_no_hex:
  "(case show_nat n of a # b # _ \<Rightarrow> a = CHR ''0'' \<and> (b = CHR ''x'' \<or> b = CHR ''X'') | _ \<Rightarrow> False) = False"
proof (cases "show_nat n")
  case Nil
  show ?thesis unfolding Nil by simp
next
  case (Cons a r)
  note outer = Cons
  show ?thesis
  proof (cases r)
    case Nil
    show ?thesis unfolding outer Nil by simp
  next
    case (Cons b r')
    have "b \<noteq> CHR ''x'' \<and> b \<noteq> CHR ''X''"
      using second_char_no_x[of n a b r'] outer Cons by simp
    then show ?thesis unfolding outer Cons by simp
  qed
qed

lemma parseInt_digits:
  assumes "\<not> is_ws c" and "c \<noteq> CHR ''-''" and "c \<noteq> CHR ''+''"
    and "(case c # r of a # b # _ \<Rightarrow> a = CHR ''0'' \<and> (b = CHR ''x'' \<or> b = CHR ''X'') | _ \<Rightarrow> False) = False"
    and "read_digits 10 None (c # r) = Some m"
  shows "parseInt (c # r) = Num (int m)"
proof -
  have lt: "ltrim (c # r) = c # r" using assms(1) by (simp add: ltrim_def)
  show ?thesis
    unfolding parseInt_def lt Let_def
    using assms(2,3,4,5) by (simp del: read_digits.simps)
qed

lemma parseInt_minus_digits:
  assumes "(case s of a # b # _ \<Rightarrow> a = CHR ''0'' \<and> (b = CHR ''x'' \<or> b = CHR ''X'') | _ \<Rightarrow> False) = False"
    and "read_digits 10 None s = Some m"
  shows "parseInt (CHR ''-'' # s) = Num (- int m)"
proof -
  have lt: "ltrim (CHR ''-'' # s) = CHR ''-'' # s" by (simp add: ltrim_def is_ws_def)
  show ?thesis
    unfolding parseInt_def lt Let_def
    using assms by simp
qed

lemma parseInt_show_nat: "parseInt (show_nat n) = Num (int n)"
proof -
  obtain c r where cr: "show_nat n = c # r" using show_nat_not_Nil[of n] by (cases "show_nat n") auto
  then obtain d where d: "d < 10" "c = digit_char d" using show_nat_digits[of c n] by auto
  note pc = digit_char_plain[OF d(1), folded d(2)]
  show ?thesis
    using parseInt_digits[of c r n] pc show_nat_no_hex[of n] read_show_nat[of n]
    unfolding cr by blast
qed

lemma parseInt_show_int: "parseInt (show_int i) = Num i"
proof (cases "i < 0")
  case False
  then show ?thesis using parseInt_show_nat[of "nat i"] by (simp add: show_int_def)
next
  case True
  then show ?thesis
    using parseInt_minus_digits[OF show_nat_no_hex read_show_nat, of "nat (- i)"]
    by (simp add: show_int_def)
qed

lemma show_int_inj: "show_int i = show_int j \<Longrightarrow> i = j"
proof -
  assume "show_int i = show_int j"
  then have "parseInt (show_int i) = parseInt (show_int j)" by simp
  then show "i = j" by (simp add: parseInt_show_int)
qed

section \<open>Creating a problem\<close>

lemma find_None_fresh: "i \<notin> p_id ` set ps \<Longrightarrow> find (\<lambda>q. p_id q = i) ps = None"
  by (induction ps) auto

lemma new_Problem_fields [simp]:
  "p_id (new_Problem i u b) = i"
  "reportedBy (new_Problem i u b) = u_id u"
  "p_wardNumber (new_Problem i u b) = u_wardNumber u"
  by (simp_all add: new_Problem_def)

lemma new_Problem_ignores_body_ward: "new_Problem i u (b\<lparr>b_wardNumber := x\<rparr>) = new_Problem i u b"
  by (simp add: new_Problem_def)

lemma validate_ignores_body_ward: "validate_post_problem (b\<lparr>b_wardNumber := x\<rparr>) = validate_post_problem b"
  by (simp add: validate_post_problem_def)

lemma post_problem_ignores_body_ward:
  "post_problem w u (b\<lparr>b_wardNumber := x\<rparr>) now = post_problem w u b now"
  by (simp add: post_problem_def Let_def new_Problem_ignores_body_ward validate_ignores_body_ward)

lemma post_problem_success:
  fixes now :: date
  assumes v: "validate_post_problem b = []" and lo: "1 \<le> u_wardNumber u" and hi: "u_wardNumber u \<le> 50"
    and fresh: "next_id w \<notin> p_id ` set (db_problems w)"
  defines "p \<equiv> (new_Problem (next_id w) u b)\<lparr>p_createdAt := now, p_updatedAt := now\<rparr>"
  defines "w2 \<equiv> w\<lparr>next_id := Suc (next_id w), db_problems := db_problems w @ [p],
                    trace := trace w @ [ESave p]\<rparr>"
  shows "post_problem w u b now =
           (reply 201 (ProblemMsg ''Problem reported successfully'' (populate_reportedBy w2 (view p))),
            io_to_emit w2 (ward_room (show_int (u_wardNumber u))) (new_problem_event p))"
proof -
  have sv: "problem_save (w\<lparr>next_id := Suc (next_id w)\<rparr>) True (new_Problem (next_id w) u b) now
            = Inr (p, w2)"
    using post_valid[OF v lo hi, of "next_id w"] find_None_fresh[OF fresh]
    by (simp add: problem_save_def p_def w2_def Let_def)
  show ?thesis
    unfolding post_problem_def using v sv by (simp add: p_def Let_def)
qed

text \<open>
  C4. A creation request that passes the validators, from a user whose ward is within the
  schema's range, and with a fresh object id, is answered with 201; the stored problem has
  the ward number and the id of the requesting user. A \<open>wardNumber\<close> in the body changes
  nothing.
\<close>

theorem post_problem_ward_from_actor:
  assumes "validate_post_problem b = []" and "1 \<le> u_wardNumber u" and "u_wardNumber u \<le> 50"
    and "next_id w \<notin> p_id ` set (db_problems w)"
  shows "\<exists>p v w'. post_problem w u b now = (reply 201 (ProblemMsg ''Problem reported successfully'' v), w')
           \<and> doc v = p \<and> db_problems w' = db_problems w @ [p]
           \<and> p_wardNumber p = u_wardNumber u \<and> reportedBy p = u_id u
           \<and> post_problem w u (b\<lparr>b_wardNumber := x\<rparr>) now = post_problem w u b now"
  apply (intro exI conjI)
       apply (rule post_problem_success[OF assms])
      apply (simp add: populate_reportedBy_def view_def)
     apply (simp add: io_to_emit_def)
    apply simp
   apply simp
  apply (rule post_problem_ignores_body_ward)
  done

theorem post_problem_ward_from_actor_witness:
  "validate_post_problem pipe_body = [] \<and> 1 \<le> u_wardNumber resident3 \<and> u_wardNumber resident3 \<le> 50
   \<and> next_id empty_world \<notin> p_id ` set (db_problems empty_world)
   \<and> (\<exists>p v w'. post_problem empty_world resident3 pipe_body 1000
                    = (reply 201 (ProblemMsg ''Problem reported successfully'' v), w')
           \<and> doc v = p \<and> db_problems w' = db_problems empty_world @ [p]
           \<and> p_wardNumber p = 3 \<and> reportedBy p = 7
           \<and> post_problem empty_world resident3 (pipe_body\<lparr>b_wardNumber := Some 1\<rparr>) 1000
               = post_problem empty_world resident3 pipe_body 1000)"
proof -
  have v: "validate_post_problem pipe_body = []"
    by (simp add: validate_post_problem_def check_def pipe_body_def str_of_def trim_def is_ws_def
        categories_def)
  have lo: "1 \<le> u_wardNumber resident3" and hi: "u_wardNumber resident3 \<le> 50"
    by (simp_all add: resident3_def)
  have fresh: "next_id empty_world \<notin> p_id ` set (db_problems empty_world)"
    by (simp add: empty_world_def)
  have w3: "u_wardNumber resident3 = 3" and i7: "u_id resident3 = 7" by (simp_all add: resident3_def)
  show ?thesis
    using v lo hi fresh post_problem_ward_from_actor[OF v lo hi fresh, of 1000 "Some 1"]
    unfolding w3 i7 by blast
qed

section \<open>Publishing to a ward's room\<close>

lemma find_Some_mem: "find P xs = Some x \<Longrightarrow> x \<in> set xs \<and> P x"
  by (induction xs) (auto split: if_splits)

lemma problem_save_Inr:
  assumes "problem_save w isNew p now = Inr (p', w')"
  shows "trace w' = trace w @ [ESave p']" "p' \<in> set (db_problems w')" "rooms w' = rooms w"
    "inbox w' = inbox w" "p_id p' = p_id p" "p_wardNumber p' = p_wardNumber p"
    "title p' = title p" "status p' = status p" "db_users w' = db_users w"
  using assms
  by (auto simp: problem_save_def Let_def split: if_splits option.splits dest!: find_Some_mem)

lemma post_problem_cases:
  fixes now :: date and w :: world and u :: user and b :: problem_body
  defines "p \<equiv> (new_Problem (next_id w) u b)\<lparr>p_createdAt := now, p_updatedAt := now\<rparr>"
  defines "w1 \<equiv> w\<lparr>next_id := Suc (next_id w)\<rparr>"
  shows "post_problem w u b now = (reply 400 (Errors (validate_post_problem b)), w)
       \<or> post_problem w u b now = (reply 500 (Message ''Server error while reporting problem''), w1)
       \<or> (\<exists>w2. problem_save w1 True (new_Problem (next_id w) u b) now = Inr (p, w2)
             \<and> post_problem w u b now =
               (reply 201 (ProblemMsg ''Problem reported successfully'' (populate_reportedBy w2 (view p))),
                io_to_emit w2 (ward_room (show_int (u_wardNumber u))) (new_problem_event p)))"
  unfolding post_problem_def p_def w1_def
  by (auto simp: Let_def problem_save_def split: sum.splits option.splits if_splits)

lemma ward_room_inj: "ward_room (show_int m) = ward_room (show_int n) \<Longrightarrow> m = n"
  by (simp add: ward_room_def show_int_inj)

lemma socket_on_keeps_new_problem:
  "filter is_new_problem (inbox (socket_on e w) sid) = filter is_new_problem (inbox w sid)"
  by (cases e) (simp_all add: socket_join_def io_to_emit_def is_new_problem_def)

lemma fold_socket_on_keeps_new_problem:
  "filter is_new_problem (inbox (fold socket_on evs w) sid) = filter is_new_problem (inbox w sid)"
  by (induction evs arbitrary: w) (simp_all add: socket_on_keeps_new_problem)

text \<open>
  C1. When \<open>POST /api/problems\<close> answers 201, every socket that is in the room of the
  user's ward at that moment has exactly one more event, the \<open>new-problem\<close> event of the
  stored problem, and every other socket has what it had; without a 201 nothing is delivered.
  The handler changes no room, and the rooms of two different ward numbers are different
  rooms. Whatever the sockets do afterwards (join, disconnect, send
  a status update), the \<open>new-problem\<close> events a socket has received stay the same: nothing
  is replayed to a socket that joins later.
\<close>

theorem new_problem_fan_out:
  assumes "post_problem w u b now = (r, w')"
  shows "(code r = 201 \<longrightarrow>
            (\<exists>p. p \<in> set (db_problems w') \<and> p_wardNumber p = u_wardNumber u \<and>
               (\<forall>sid. inbox w' sid =
                  (if sid \<in> rooms w (ward_room (show_int (u_wardNumber u)))
                   then inbox w sid @ [new_problem_event p] else inbox w sid))))
       \<and> (code r \<noteq> 201 \<longrightarrow> inbox w' = inbox w)
       \<and> rooms w' = rooms w
       \<and> (\<forall>m. ward_room (show_int m) = ward_room (show_int (u_wardNumber u)) \<longrightarrow> m = u_wardNumber u)
       \<and> (\<forall>evs sid. filter is_new_problem (inbox (fold socket_on evs w') sid)
                      = filter is_new_problem (inbox w' sid))"
proof -
  define p where "p = (new_Problem (next_id w) u b)\<lparr>p_createdAt := now, p_updatedAt := now\<rparr>"
  consider
    (invalid) "(r, w') = (reply 400 (Errors (validate_post_problem b)), w)"
  | (failed) "(r, w') = (reply 500 (Message ''Server error while reporting problem''),
                         w\<lparr>next_id := Suc (next_id w)\<rparr>)"
  | (created) w2 where
      "problem_save (w\<lparr>next_id := Suc (next_id w)\<rparr>) True (new_Problem (next_id w) u b) now = Inr (p, w2)"
      "(r, w') = (reply 201 (ProblemMsg ''Problem reported successfully'' (populate_reportedBy w2 (view p))),
                io_to_emit w2 (ward_room (show_int (u_wardNumber u))) (new_problem_event p))"
    using post_problem_cases[of w u b now] assms unfolding p_def by metis
  then have main: "(code r = 201 \<longrightarrow>
            (\<exists>p. p \<in> set (db_problems w') \<and> p_wardNumber p = u_wardNumber u \<and>
               (\<forall>sid. inbox w' sid =
                  (if sid \<in> rooms w (ward_room (show_int (u_wardNumber u)))
                   then inbox w sid @ [new_problem_event p] else inbox w sid))))
       \<and> (code r \<noteq> 201 \<longrightarrow> inbox w' = inbox w)
       \<and> rooms w' = rooms w"
  proof cases
    case invalid
    then show ?thesis by (simp add: reply_def)
  next
    case failed
    then show ?thesis by (auto simp add: reply_def)
  next
    case created
    note s = problem_save_Inr[OF created(1)]
    have r: "code r = 201" and w': "w' = io_to_emit w2 (ward_room (show_int (u_wardNumber u))) (new_problem_event p)"
      using created(2) by (simp_all add: reply_def)
    have "p \<in> set (db_problems w')" using s(2) by (simp add: w' io_to_emit_def)
    moreover have "p_wardNumber p = u_wardNumber u" by (simp add: p_def new_Problem_def)
    moreover have "\<forall>sid. inbox w' sid =
                  (if sid \<in> rooms w (ward_room (show_int (u_wardNumber u)))
                   then inbox w sid @ [new_problem_event p] else inbox w sid)"
      using s(3,4) by (simp add: w' io_to_emit_def)
    moreover have "rooms w' = rooms w" using s(3) by (simp add: w' io_to_emit_def)
    ultimately show ?thesis using r by blast
  qed
  show ?thesis using main fold_socket_on_keeps_new_problem ward_room_inj by blast
qed


lemma pipe_body_valid: "validate_post_problem pipe_body = []"
  by (simp add: validate_post_problem_def check_def pipe_body_def str_of_def trim_def is_ws_def
      categories_def)

lemma joined_world_fields:
  "db_problems joined_world = []" "next_id joined_world = 1" "inbox joined_world = (\<lambda>sid. [])"
  "trace joined_world = []"
  by (simp_all add: joined_world_def empty_world_def socket_join_def)

lemma joined_world_ward3: "rooms joined_world (ward_room (show_int 3)) = {1, 2}"
  by (auto simp add: joined_world_def empty_world_def socket_join_def ward_room_def show_int_def
      show_nat.simps digit_char_def)

theorem new_problem_fan_out_witness:
  "\<exists>p. code (fst (post_problem joined_world resident3 pipe_body 1000)) = 201
     \<and> inbox (snd (post_problem joined_world resident3 pipe_body 1000)) 1 = [new_problem_event p]
     \<and> inbox (snd (post_problem joined_world resident3 pipe_body 1000)) 2 = [new_problem_event p]
     \<and> inbox (snd (post_problem joined_world resident3 pipe_body 1000)) 3 = []
     \<and> inbox (socket_on (JoinWard 3 (JNum 3)) (snd (post_problem joined_world resident3 pipe_body 1000))) 3 = []"
proof -
  let ?X = "post_problem joined_world resident3 pipe_body 1000"
  have w3: "u_wardNumber resident3 = 3" by (simp add: resident3_def)
  have c: "code (fst ?X) = 201"
    using post_problem_success[OF pipe_body_valid, of resident3 joined_world 1000]
    by (simp add: reply_def joined_world_fields w3)
  have "?X = (fst ?X, snd ?X)" by simp
  from new_problem_fan_out[OF this] c obtain p where
    p: "\<forall>sid. inbox (snd ?X) sid =
          (if sid \<in> rooms joined_world (ward_room (show_int (u_wardNumber resident3)))
           then inbox joined_world sid @ [new_problem_event p] else inbox joined_world sid)"
    by blast
  have i: "\<And>sid. inbox (snd ?X) sid = (if sid \<in> {1, 2} then [new_problem_event p] else [])"
    using p by (simp add: w3 joined_world_ward3 joined_world_fields)
  have "inbox (socket_on (JoinWard 3 (JNum 3)) (snd ?X)) 3 = inbox (snd ?X) 3"
    by (simp add: socket_join_def)
  then show ?thesis using c i by auto
qed

section \<open>The order of save and emit\<close>

lemma post_problem_trace:
  assumes "post_problem w u b now = (r, w')"
  shows "\<exists>es. trace w' = trace w @ es \<and> emit_follows_save None es \<and>
           (code r = 201 \<longrightarrow>
              (\<exists>p. es = [ESave p, EEmit (ward_room (show_int (p_wardNumber p))) (new_problem_event p)]
                 \<and> p \<in> set (db_problems w')))"
proof -
  define p where "p = (new_Problem (next_id w) u b)\<lparr>p_createdAt := now, p_updatedAt := now\<rparr>"
  consider
    (invalid) "(r, w') = (reply 400 (Errors (validate_post_problem b)), w)"
  | (failed) "(r, w') = (reply 500 (Message ''Server error while reporting problem''),
                         w\<lparr>next_id := Suc (next_id w)\<rparr>)"
  | (created) w2 where
      "problem_save (w\<lparr>next_id := Suc (next_id w)\<rparr>) True (new_Problem (next_id w) u b) now = Inr (p, w2)"
      "(r, w') = (reply 201 (ProblemMsg ''Problem reported successfully'' (populate_reportedBy w2 (view p))),
                io_to_emit w2 (ward_room (show_int (u_wardNumber u))) (new_problem_event p))"
    using post_problem_cases[of w u b now] assms unfolding p_def by metis
  then show ?thesis
  proof cases
    case invalid
    then show ?thesis by (simp add: reply_def)
  next
    case failed
    then show ?thesis by (simp add: reply_def)
  next
    case created
    note s = problem_save_Inr[OF created(1)]
    have w': "w' = io_to_emit w2 (ward_room (show_int (u_wardNumber u))) (new_problem_event p)"
      using created(2) by simp
    have pw: "p_wardNumber p = u_wardNumber u" by (simp add: p_def)
    have t: "trace w' = trace w @ [ESave p, EEmit (ward_room (show_int (p_wardNumber p))) (new_problem_event p)]"
      using s(1) by (simp add: w' io_to_emit_def pw)
    have m: "p \<in> set (db_problems w')" using s(2) by (simp add: w' io_to_emit_def)
    show ?thesis using t m by simp
  qed
qed

lemma put_problem_status_trace:
  assumes "put_problem_status w i sb t1 t2 t3 = (r, w')"
  shows "\<exists>es. trace w' = trace w @ es \<and> emit_follows_save None es \<and>
           (code r = 200 \<longrightarrow>
              (\<exists>p saves. es = map ESave saves @
                              [ESave p, EEmit (ward_room (show_int (p_wardNumber p))) (problem_updated_event p)]
                 \<and> p \<in> set (db_problems w')))"
proof (cases "validate_put_status sb = []")
  case False
  then show ?thesis using assms by (auto simp add: put_problem_status_def Let_def reply_def)
next
  case valid: True
  show ?thesis
  proof (cases "findById w i")
    case (Inl e)
    then show ?thesis using assms valid by (auto simp add: put_problem_status_def Let_def reply_def)
  next
    case (Inr found)
    show ?thesis
    proof (cases found)
      case None
      then show ?thesis using assms valid Inr by (auto simp add: put_problem_status_def Let_def reply_def)
    next
      case (Some problem)
      show ?thesis
      proof (cases "updateStatus w problem (str_of (sb_status sb)) (sb_adminNotes sb) t1 t2")
        case (Inl e)
        then show ?thesis using assms valid Inr Some
          by (auto simp add: put_problem_status_def Let_def reply_def)
      next
        case first: (Inr pw1)
        obtain p1 w1 where pw1: "pw1 = (p1, w1)" by (cases pw1)
        from first pw1 obtain q where sv1: "problem_save w False q t2 = Inr (p1, w1)"
          by (auto simp: updateStatus_def Let_def)
        note s1 = problem_save_Inr[OF sv1]
        define second where "second = (case sb_assignedTo sb of
                        None \<Rightarrow> Inr (p1, w1)
                      | Some None \<Rightarrow> Inl ''CastError''
                      | Some (Some a) \<Rightarrow> problem_save w1 False (p1\<lparr>assignedTo := Some a\<rparr>) t3)"
        show ?thesis
        proof (cases second)
          case (Inl e)
          then have "(r, w') = (reply 500 (Message ''Server error while updating problem''), w1)"
            using assms valid Inr Some first pw1
            by (simp add: put_problem_status_def Let_def second_def)
          then show ?thesis using s1(1) by (simp add: reply_def)
        next
          case (Inr pw2)
          obtain p2 w2 where pw2: "pw2 = (p2, w2)" by (cases pw2)
          have res: "(r, w') = (reply 200 (ProblemMsg ''Problem status updated successfully'' (populate_both w2 p2)),
                      io_to_emit w2 (ward_room (show_int (p_wardNumber p2))) (problem_updated_event p2))"
            using assms valid \<open>findById w i = Inr found\<close> Some first pw1 Inr pw2
            by (simp add: put_problem_status_def Let_def second_def)
          have "\<exists>saves. trace w2 = trace w @ map ESave saves @ [ESave p2] \<and> p2 \<in> set (db_problems w2)"
          proof (cases "sb_assignedTo sb")
            case None
            then have "p2 = p1" "w2 = w1" using Inr pw2 by (simp_all add: second_def)
            then show ?thesis using s1(1,2) by (intro exI[of _ "[]"]) simp
          next
            case (Some a')
            then obtain a where sv2: "problem_save w1 False (p1\<lparr>assignedTo := Some a\<rparr>) t3 = Inr (p2, w2)"
              using Inr pw2 by (cases a') (simp_all add: second_def)
            note s2 = problem_save_Inr[OF sv2]
            show ?thesis using s1(1) s2(1,2) by (intro exI[of _ "[p1]"]) simp
          qed
          then obtain saves where t2: "trace w2 = trace w @ map ESave saves @ [ESave p2]"
            and m2: "p2 \<in> set (db_problems w2)" by blast
          have follows: "\<And>saved. emit_follows_save saved (map ESave saves @
                   [ESave p2, EEmit (ward_room (show_int (p_wardNumber p2))) (problem_updated_event p2)])"
            by (induction saves) simp_all
          have t: "trace w' = trace w @ (map ESave saves @
                   [ESave p2, EEmit (ward_room (show_int (p_wardNumber p2))) (problem_updated_event p2)])"
            using res t2 by (simp add: io_to_emit_def)
          have m: "p2 \<in> set (db_problems w')" using res m2 by (simp add: io_to_emit_def)
          show ?thesis using t m follows by blast
        qed
      qed
    qed
  qed
qed


text \<open>
  C3. In the effects that one call of \<open>POST /api/problems\<close> or of
  \<open>PUT /api/problems/:id/status\<close> adds, every emit comes after a save and carries the
  fields of the problem saved last. A 201 of the first is a save followed by the emit of
  \<open>new-problem\<close>; a 200 of the second is one or two saves followed by the emit of
  \<open>problem-updated\<close>; in both the problem of the event is in the collection.
\<close>

theorem save_precedes_emit:
  "(\<exists>es. trace (snd (post_problem w u b now)) = trace w @ es \<and> emit_follows_save None es \<and>
           (code (fst (post_problem w u b now)) = 201 \<longrightarrow>
              (\<exists>p. es = [ESave p, EEmit (ward_room (show_int (p_wardNumber p))) (new_problem_event p)]
                 \<and> p \<in> set (db_problems (snd (post_problem w u b now))))))
   \<and> (\<exists>es. trace (snd (put_problem_status w i sb t1 t2 t3)) = trace w @ es \<and> emit_follows_save None es \<and>
           (code (fst (put_problem_status w i sb t1 t2 t3)) = 200 \<longrightarrow>
              (\<exists>p saves. es = map ESave saves @
                              [ESave p, EEmit (ward_room (show_int (p_wardNumber p))) (problem_updated_event p)]
                 \<and> p \<in> set (db_problems (snd (put_problem_status w i sb t1 t2 t3))))))"
  using post_problem_trace[of w u b now "fst (post_problem w u b now)" "snd (post_problem w u b now)"]
    put_problem_status_trace[of w i sb t1 t2 t3 "fst (put_problem_status w i sb t1 t2 t3)"
      "snd (put_problem_status w i sb t1 t2 t3)"]
  by simp

lemma joined_world_users: "db_users joined_world = []"
  by (simp add: joined_world_def empty_world_def socket_join_def)

lemma new_pipe_problem:
  "(new_Problem (next_id joined_world) resident3 pipe_body)\<lparr>p_createdAt := 1000, p_updatedAt := 1000\<rparr>
     = pipe_problem"
  by (simp add: new_Problem_def resident3_def pipe_body_def pipe_problem_def str_of_def trim_def
      is_ws_def joined_world_fields)

lemma post_pipe:
  "post_problem joined_world resident3 pipe_body 1000 =
     (reply 201 (ProblemMsg ''Problem reported successfully''
        (populate_reportedBy
           (joined_world\<lparr>next_id := Suc (next_id joined_world),
              db_problems := db_problems joined_world @ [pipe_problem],
              trace := trace joined_world @ [ESave pipe_problem]\<rparr>) (view pipe_problem))),
      io_to_emit
        (joined_world\<lparr>next_id := Suc (next_id joined_world),
           db_problems := db_problems joined_world @ [pipe_problem],
           trace := trace joined_world @ [ESave pipe_problem]\<rparr>)
        (ward_room (show_int (u_wardNumber resident3))) (new_problem_event pipe_problem))"
proof -
  have lo: "1 \<le> u_wardNumber resident3" and hi: "u_wardNumber resident3 \<le> 50"
    by (simp_all add: resident3_def)
  have fresh: "next_id joined_world \<notin> p_id ` set (db_problems joined_world)"
    by (simp add: joined_world_fields)
  show ?thesis
    using post_problem_success[OF pipe_body_valid lo hi fresh, of 1000]
    unfolding new_pipe_problem .
qed

lemma reported_world_fields:
  "db_problems reported_world = [pipe_problem]"
  "trace reported_world =
     [ESave pipe_problem, EEmit (ward_room (show_int 3)) (new_problem_event pipe_problem)]"
  "db_users reported_world = []"
  "code (fst (post_problem joined_world resident3 pipe_body 1000)) = 201"
  unfolding reported_world_def post_pipe
  by (simp_all add: io_to_emit_def joined_world_fields joined_world_users reply_def resident3_def)

lemma pipe_problem_valid: "problem_valid pipe_problem"
  by (simp add: problem_valid_def pipe_problem_def categories_def priorities_def statuses_def)

lemma resolve_code:
  "code (fst (put_problem_status reported_world (Some 1) resolve_body 2000 2001 2002)) = 200"
  by (simp add: put_problem_status_def validate_put_status_def check_def resolve_body_def str_of_def
      statuses_def findById_def reported_world_fields updateStatus_def problem_save_def Let_def
      problem_valid_def pipe_problem_def categories_def priorities_def trim_def is_ws_def reply_def)

theorem save_precedes_emit_witness:
  "code (fst (post_problem joined_world resident3 pipe_body 1000)) = 201
   \<and> (\<exists>p. trace (snd (post_problem joined_world resident3 pipe_body 1000)) =
            [ESave p, EEmit (ward_room (show_int (p_wardNumber p))) (new_problem_event p)])
   \<and> code (fst (put_problem_status reported_world (Some 1) resolve_body 2000 2001 2002)) = 200
   \<and> (\<exists>p saves. trace (snd (put_problem_status reported_world (Some 1) resolve_body 2000 2001 2002)) =
            trace reported_world @ map ESave saves @
              [ESave p, EEmit (ward_room (show_int (p_wardNumber p))) (problem_updated_event p)])"
proof -
  note c1 = reported_world_fields(4)
  have t0: "trace joined_world = []" by (simp add: joined_world_fields)
  have A: "\<exists>p. trace (snd (post_problem joined_world resident3 pipe_body 1000)) =
            [ESave p, EEmit (ward_room (show_int (p_wardNumber p))) (new_problem_event p)]"
    using conjunct1[OF save_precedes_emit[of joined_world resident3 pipe_body 1000]] c1 t0
    by auto
  have B: "\<exists>p saves. trace (snd (put_problem_status reported_world (Some 1) resolve_body 2000 2001 2002)) =
            trace reported_world @ map ESave saves @
              [ESave p, EEmit (ward_room (show_int (p_wardNumber p))) (problem_updated_event p)]"
    using conjunct2[OF save_precedes_emit[of reported_world resident3 pipe_body 1000 "Some 1"
          resolve_body 2000 2001 2002]] resolve_code
    by auto
  show ?thesis using c1 resolve_code A B by blast
qed

section \<open>Updating the status\<close>

lemma length_trim_le: "length (trim s) \<le> length s"
proof -
  have "length (trim s) \<le> length (dropWhile is_ws s)"
    unfolding trim_def by (metis length_rev length_dropWhile_le)
  also have "\<dots> \<le> length s" by (rule length_dropWhile_le)
  finally show ?thesis .
qed

text \<open>The document as \<open>updateStatus\<close> has changed it when it calls \<open>save\<close>.\<close>

lemma updateStatus_save:
  "updateStatus w p newStatus notes t_now t_save =
     problem_save w False
       (p\<lparr>status := newStatus,
          adminNotes := (if truthy notes then Some (trim (str_of notes)) else adminNotes p),
          resolvedAt := (if newStatus = ''Resolved'' \<or> newStatus = ''Closed'' then Some t_now
                         else resolvedAt p)\<rparr>)
       t_save"
  by (simp add: updateStatus_def Let_def)

lemma updateStatus_valid:
  assumes "problem_valid p" and "newStatus \<in> set statuses"
    and "case notes of None \<Rightarrow> True | Some n \<Rightarrow> length n \<le> 500"
  shows "problem_valid
       (p\<lparr>status := newStatus,
          adminNotes := (if truthy notes then Some (trim (str_of notes)) else adminNotes p),
          resolvedAt := r\<rparr>)"
proof (cases "notes")
  case None
  then show ?thesis using assms by (simp add: problem_valid_def)
next
  case (Some n)
  have "length (trim n) \<le> 500" using assms(3) Some length_trim_le[of n] by simp
  then show ?thesis using assms Some by (simp add: problem_valid_def str_of_def)
qed

text \<open>
  C5, as the code has it. For a problem as it is stored, a status of the enumeration and
  notes of at most 500 characters, \<open>updateStatus\<close> succeeds. With \<open>Resolved\<close> or
  \<open>Closed\<close> it sets \<open>resolvedAt\<close> to the time of the call, which is not before the
  creation when the clock has not gone back; with another status \<open>resolvedAt\<close> stays as it
  was. \<open>adminNotes\<close> changes only for notes that are not empty. Apart from \<open>status\<close>,
  \<open>adminNotes\<close>, \<open>resolvedAt\<close> and the timestamp \<open>updatedAt\<close> of the store, which moves
  to the time of the save when the document changed, every field is as before.
\<close>

theorem updateStatus_fields:
  assumes "find (\<lambda>q. p_id q = p_id p) (db_problems w) = Some p"
    and "problem_valid p" and "newStatus \<in> set statuses"
    and "case notes of None \<Rightarrow> True | Some n \<Rightarrow> length n \<le> 500"
  shows "\<exists>p' w'. updateStatus w p newStatus notes t_now t_save = Inr (p', w')
     \<and> status p' = newStatus
     \<and> (newStatus = ''Resolved'' \<or> newStatus = ''Closed'' \<longrightarrow> resolvedAt p' = Some t_now)
     \<and> (newStatus = ''Resolved'' \<or> newStatus = ''Closed'' \<longrightarrow> p_createdAt p \<le> t_now \<longrightarrow>
          (\<exists>t. resolvedAt p' = Some t \<and> p_createdAt p' \<le> t))
     \<and> (newStatus = ''Open'' \<or> newStatus = ''In Progress'' \<longrightarrow> resolvedAt p' = resolvedAt p)
     \<and> adminNotes p' = (if truthy notes then Some (trim (str_of notes)) else adminNotes p)
     \<and> p'\<lparr>status := status p, adminNotes := adminNotes p, resolvedAt := resolvedAt p,
           p_updatedAt := p_updatedAt p\<rparr> = p
     \<and> p_updatedAt p' = (if p'\<lparr>p_updatedAt := p_updatedAt p\<rparr> = p then p_updatedAt p else t_save)"
proof -
  define q where "q = p\<lparr>status := newStatus,
          adminNotes := (if truthy notes then Some (trim (str_of notes)) else adminNotes p),
          resolvedAt := (if newStatus = ''Resolved'' \<or> newStatus = ''Closed'' then Some t_now
                         else resolvedAt p)\<rparr>"
  define p' where "p' = (if q = p then q else q\<lparr>p_updatedAt := t_save\<rparr>)"
  have v: "problem_valid q" unfolding q_def by (rule updateStatus_valid[OF assms(2,3,4)])
  have f: "find (\<lambda>x. p_id x = p_id q) (db_problems w) = Some p" using assms(1) by (simp add: q_def)
  have "\<exists>w'. updateStatus w p newStatus notes t_now t_save = Inr (p', w')"
    unfolding updateStatus_save q_def[symmetric] using v f
    by (simp add: problem_save_def Let_def p'_def)
  then obtain w' where r: "updateStatus w p newStatus notes t_now t_save = Inr (p', w')" by blast
  have pq: "p' = q \<or> p' = q\<lparr>p_updatedAt := t_save\<rparr>" by (simp add: p'_def)
  have s: "status p' = newStatus" using pq by (auto simp: q_def)
  have ra: "resolvedAt p' = (if newStatus = ''Resolved'' \<or> newStatus = ''Closed'' then Some t_now
                         else resolvedAt p)" using pq by (auto simp: q_def)
  have c: "p_createdAt p' = p_createdAt p" using pq by (auto simp: q_def)
  have n: "adminNotes p' = (if truthy notes then Some (trim (str_of notes)) else adminNotes p)"
    using pq by (auto simp: q_def)
  have rest: "p'\<lparr>status := status p, adminNotes := adminNotes p, resolvedAt := resolvedAt p,
           p_updatedAt := p_updatedAt p\<rparr> = p" using pq by (auto simp: q_def)
  have qu: "q\<lparr>p_updatedAt := p_updatedAt p\<rparr> = q" by (simp add: q_def)
  have u: "p_updatedAt p' = (if p'\<lparr>p_updatedAt := p_updatedAt p\<rparr> = p then p_updatedAt p else t_save)"
  proof (cases "q = p")
    case True
    then show ?thesis using qu by (simp add: p'_def)
  next
    case False
    then show ?thesis using qu by (simp add: p'_def)
  qed
  show ?thesis
    apply (rule exI[of _ p'], rule exI[of _ w'])
    using r s ra c n rest u by (simp del: One_nat_def)
qed


theorem updateStatus_fields_witness:
  "find (\<lambda>q. p_id q = p_id pipe_problem) (db_problems reported_world) = Some pipe_problem
   \<and> problem_valid pipe_problem \<and> ''Resolved'' \<in> set statuses \<and> length ''Pipe replaced'' \<le> 500
   \<and> p_createdAt pipe_problem \<le> 2000
   \<and> (\<exists>p' w'. updateStatus reported_world pipe_problem ''Resolved'' (Some ''Pipe replaced'') 2000 2001
                  = Inr (p', w')
         \<and> status p' = ''Resolved'' \<and> resolvedAt p' = Some 2000 \<and> p_createdAt p' \<le> 2000
         \<and> adminNotes p' = Some ''Pipe replaced'' \<and> p_updatedAt p' = 2001
         \<and> p'\<lparr>status := status pipe_problem, adminNotes := adminNotes pipe_problem,
               resolvedAt := resolvedAt pipe_problem, p_updatedAt := p_updatedAt pipe_problem\<rparr>
             = pipe_problem)"
proof -
  have f: "find (\<lambda>q. p_id q = p_id pipe_problem) (db_problems reported_world) = Some pipe_problem"
    by (simp add: reported_world_fields)
  have s: "''Resolved'' \<in> set statuses" by (simp add: statuses_def)
  have n: "case Some ''Pipe replaced'' of None \<Rightarrow> True | Some n \<Rightarrow> length n \<le> 500" by simp
  have c: "p_createdAt pipe_problem \<le> 2000" by (simp add: pipe_problem_def)
  have t: "trim (str_of (Some ''Pipe replaced'')) = ''Pipe replaced''"
    by (simp add: str_of_def trim_def is_ws_def)
  obtain p' w' where
    r: "updateStatus reported_world pipe_problem ''Resolved'' (Some ''Pipe replaced'') 2000 2001 = Inr (p', w')"
    and st: "status p' = ''Resolved''" and ra: "resolvedAt p' = Some 2000"
    and cr: "\<exists>t. resolvedAt p' = Some t \<and> p_createdAt p' \<le> t"
    and an: "adminNotes p' = Some ''Pipe replaced''"
    and rest: "p'\<lparr>status := status pipe_problem, adminNotes := adminNotes pipe_problem,
               resolvedAt := resolvedAt pipe_problem, p_updatedAt := p_updatedAt pipe_problem\<rparr>
             = pipe_problem"
    and u: "p_updatedAt p' = (if p'\<lparr>p_updatedAt := p_updatedAt pipe_problem\<rparr> = pipe_problem
                              then p_updatedAt pipe_problem else 2001)"
    using updateStatus_fields[OF f pipe_problem_valid s n, of 2000 2001] c t by auto
  have "p'\<lparr>p_updatedAt := p_updatedAt pipe_problem\<rparr> \<noteq> pipe_problem"
  proof
    assume "p'\<lparr>p_updatedAt := p_updatedAt pipe_problem\<rparr> = pipe_problem"
    then have "status (p'\<lparr>p_updatedAt := p_updatedAt pipe_problem\<rparr>) = status pipe_problem" by simp
    then show False using st by (simp add: pipe_problem_def)
  qed
  then have u': "p_updatedAt p' = 2001" using u by simp
  have cr': "p_createdAt p' \<le> 2000" using cr ra by simp
  show ?thesis using f pipe_problem_valid s c r st ra cr' an u' rest by auto
qed

text \<open>
  C5 as stated fails on the timestamp of the store: resolving the stored problem at a later
  time succeeds, and putting \<open>status\<close>, \<open>adminNotes\<close> and \<open>resolvedAt\<close> back does not give
  the problem as it was, because \<open>updatedAt\<close> has moved from 1000 to the time of the save.
\<close>

theorem updateStatus_other_fields_counterexample:
  "\<not> isl (updateStatus reported_world pipe_problem ''Resolved'' None 2000 2001)
   \<and> (fst (projr (updateStatus reported_world pipe_problem ''Resolved'' None 2000 2001)))
        \<lparr>status := status pipe_problem, adminNotes := adminNotes pipe_problem,
         resolvedAt := resolvedAt pipe_problem\<rparr> \<noteq> pipe_problem
   \<and> p_updatedAt pipe_problem = 1000
   \<and> p_updatedAt (fst (projr (updateStatus reported_world pipe_problem ''Resolved'' None 2000 2001))) = 2001"
  by (simp add: updateStatus_def Let_def problem_save_def reported_world_fields pipe_problem_valid
      problem_valid_def pipe_problem_def categories_def priorities_def statuses_def)

section \<open>Listing and fetching problems\<close>

lemma set_limit_to: "set (limit_to n xs) \<subseteq> set xs"
  by (auto simp: limit_to_def dest: in_set_takeD)

lemma set_newest_first: "set (newest_first xs) = set xs"
  by (simp add: newest_first_def)

lemma doc_populate_both [simp]: "doc (populate_both w p) = p"
  by (simp add: populate_both_def populate_assignedTo_def populate_reportedBy_def view_def)

lemma find_problems_subset:
  assumes "find_problems w query skip limit = Inr ps"
  shows "set ps \<subseteq> {p \<in> set (db_problems w). matches query p}"
proof -
  have "set ps \<subseteq> set (newest_first (filter (matches query) (db_problems w)))"
    using assms set_limit_to[of limit] set_drop_subset
    by (fastforce simp: find_problems_def split: if_splits)
  then show ?thesis by (auto simp: set_newest_first)
qed

text \<open>What the shared part of the listing routes answers.\<close>

lemma list_page_cases:
  "list_page w q query failure = reply 500 (Message failure)
   \<or> (\<exists>ps. find_problems w query ((page_of q - 1) * limit_of q) (limit_of q) = Inr ps
         \<and> list_page w q query failure =
             reply 200 (ProblemPage (map (populate_both w) ps)
                (totalPages (length (filter (matches query) (db_problems w))) (limit_of q))
                (page_of q) (length (filter (matches query) (db_problems w)))))"
  by (auto simp: list_page_def countDocuments_def split: sum.splits if_splits)

lemma list_page_ok:
  assumes "q_wardNumber query \<noteq> Some NaN" and "0 \<le> (page_of q - 1) * limit_of q"
  shows "list_page w q query failure =
           reply 200 (ProblemPage
             (map (populate_both w)
                (limit_to (limit_of q) (drop (nat ((page_of q - 1) * limit_of q))
                   (newest_first (filter (matches query) (db_problems w))))))
             (totalPages (length (filter (matches query) (db_problems w))) (limit_of q))
             (page_of q) (length (filter (matches query) (db_problems w))))"
  using assms by (simp add: list_page_def find_problems_def countDocuments_def)

lemma list_page_not_403: "code (list_page w q query failure) \<noteq> 403"
  using list_page_cases[of w q query failure] by (auto simp: reply_def)

lemma list_page_docs:
  assumes "body (list_page w q query failure) = ProblemPage vs tp pg tot" and "v \<in> set vs"
  shows "doc v \<in> set (db_problems w) \<and> matches query (doc v)"
proof -
  from list_page_cases[of w q query failure] assms(1) obtain ps where
    f: "find_problems w query ((page_of q - 1) * limit_of q) (limit_of q) = Inr ps"
    and vs: "vs = map (populate_both w) ps"
    by (auto simp: reply_def)
  from assms(2) vs obtain p where "p \<in> set ps" "v = populate_both w p" by auto
  then show ?thesis using find_problems_subset[OF f] by auto
qed

lemma with_status_category_ward [simp]:
  "q_wardNumber (with_status_category q query) = q_wardNumber query"
  by (simp add: with_status_category_def Let_def)

lemma matches_ward:
  "matches query p \<Longrightarrow> q_wardNumber query = Some (Num n) \<Longrightarrow> p_wardNumber p = n"
  by (simp add: matches_def)

lemma with_status_category_ignores_ward:
  "with_status_category (q\<lparr>lq_wardNumber := x\<rparr>) query = with_status_category q query"
  by (simp add: with_status_category_def)

lemma page_limit_ignore_ward [simp]:
  "page_of (q\<lparr>lq_wardNumber := x\<rparr>) = page_of q" "limit_of (q\<lparr>lq_wardNumber := x\<rparr>) = limit_of q"
  by (simp_all add: page_of_def limit_of_def)

lemma list_page_ignores_ward:
  "list_page w (q\<lparr>lq_wardNumber := x\<rparr>) query failure = list_page w q query failure"
  by (simp add: list_page_def split: sum.splits)

text \<open>
  C2. For a user who is not an administrator, \<open>GET /api/problems\<close> never answers 403 and
  answers the same whatever ward number the query string asks for; every problem of a page
  it returns is a stored problem of the user's own ward; and it does return a page (200)
  whenever the skip \<open>(page - 1) * limit\<close> is not negative. \<open>GET /api/problems/:id\<close> for a
  stored problem of another ward answers 403 with the message \<open>Access denied\<close> and nothing
  else.
\<close>

theorem get_problems_filters_get_problem_denies:
  assumes "u_role u \<noteq> ''admin''"
  shows "code (get_problems w u q) \<noteq> 403
    \<and> get_problems w u (q\<lparr>lq_wardNumber := x\<rparr>) = get_problems w u q
    \<and> (\<forall>vs tp pg tot. body (get_problems w u q) = ProblemPage vs tp pg tot \<longrightarrow>
          (\<forall>v \<in> set vs. doc v \<in> set (db_problems w) \<and> p_wardNumber (doc v) = u_wardNumber u))
    \<and> (0 \<le> (page_of q - 1) * limit_of q \<longrightarrow>
          (\<exists>vs tp pg tot. get_problems w u q = reply 200 (ProblemPage vs tp pg tot)))
    \<and> (\<forall>k p. find (\<lambda>x. p_id x = k) (db_problems w) = Some p \<and> p_wardNumber p \<noteq> u_wardNumber u \<longrightarrow>
          get_problem w u (Some k) = reply 403 (Message ''Access denied''))"
proof -
  define query where "query = with_status_category q (empty_query\<lparr>q_wardNumber := Some (Num (u_wardNumber u))\<rparr>)"
  have g: "get_problems w u q = list_page w q query ''Server error while fetching problems''"
    using assms by (simp add: get_problems_def query_def)
  have qw: "q_wardNumber query = Some (Num (u_wardNumber u))" by (simp add: query_def)
  have 1: "code (get_problems w u q) \<noteq> 403" unfolding g by (rule list_page_not_403)
  have 2: "get_problems w u (q\<lparr>lq_wardNumber := x\<rparr>) = get_problems w u q"
    using assms by (simp add: get_problems_def with_status_category_ignores_ward list_page_ignores_ward)
  have 3: "\<forall>vs tp pg tot. body (get_problems w u q) = ProblemPage vs tp pg tot \<longrightarrow>
          (\<forall>v \<in> set vs. doc v \<in> set (db_problems w) \<and> p_wardNumber (doc v) = u_wardNumber u)"
    unfolding g using list_page_docs matches_ward[OF _ qw] by blast
  have 4: "0 \<le> (page_of q - 1) * limit_of q \<longrightarrow>
          (\<exists>vs tp pg tot. get_problems w u q = reply 200 (ProblemPage vs tp pg tot))"
    unfolding g using list_page_ok[of query q w] qw by auto
  have 5: "\<forall>k p. find (\<lambda>x. p_id x = k) (db_problems w) = Some p \<and> p_wardNumber p \<noteq> u_wardNumber u \<longrightarrow>
          get_problem w u (Some k) = reply 403 (Message ''Access denied'')"
    using assms by (simp add: get_problem_def findById_def)
  show ?thesis using 1 2 3 4 5 by blast
qed


lemma resident3_not_admin: "u_role resident3 \<noteq> ''admin''"
  by (simp add: resident3_def)

lemma two_ward_world_problems: "db_problems two_ward_world = [pipe_problem, lamp_problem]"
  by (simp add: two_ward_world_def empty_world_def)

lemma ward5_page:
  "get_problems two_ward_world resident3 ask_ward5 =
     reply 200 (ProblemPage [populate_both two_ward_world pipe_problem] (Some 1) 1 1)"
  by (simp add: get_problems_def resident3_def ask_ward5_def with_status_category_def empty_query_def
      list_page_def find_problems_def countDocuments_def page_of_def limit_of_def limit_to_def
      newest_first_def matches_def two_ward_world_problems pipe_problem_def lamp_problem_def
      totalPages_def)

theorem get_problems_filters_get_problem_denies_witness:
  "u_role resident3 \<noteq> ''admin''
   \<and> code (get_problems two_ward_world resident3 ask_ward5) \<noteq> 403
   \<and> get_problems two_ward_world resident3 ask_ward5 =
       reply 200 (ProblemPage [populate_both two_ward_world pipe_problem] (Some 1) 1 1)
   \<and> get_problems two_ward_world resident3 (ask_ward5\<lparr>lq_wardNumber := None\<rparr>) =
       get_problems two_ward_world resident3 ask_ward5
   \<and> p_wardNumber pipe_problem = u_wardNumber resident3
   \<and> find (\<lambda>x. p_id x = 2) (db_problems two_ward_world) = Some lamp_problem
   \<and> p_wardNumber lamp_problem \<noteq> u_wardNumber resident3
   \<and> get_problem two_ward_world resident3 (Some 2) = reply 403 (Message ''Access denied'')"
proof -
  note t = get_problems_filters_get_problem_denies[OF resident3_not_admin,
      of two_ward_world ask_ward5 None]
  have f: "find (\<lambda>x. p_id x = 2) (db_problems two_ward_world) = Some lamp_problem"
    by (simp add: two_ward_world_problems pipe_problem_def lamp_problem_def)
  have d: "p_wardNumber lamp_problem \<noteq> u_wardNumber resident3"
    by (simp add: lamp_problem_def resident3_def)
  have o: "p_wardNumber pipe_problem = u_wardNumber resident3"
    by (simp add: pipe_problem_def resident3_def)
  have g: "get_problem two_ward_world resident3 (Some 2) = reply 403 (Message ''Access denied'')"
    using t f d by blast
  show ?thesis using resident3_not_admin t ward5_page f d o g by blast
qed

section \<open>The problems of a ward\<close>

lemma matches_ward_only:
  "matches (empty_query\<lparr>q_wardNumber := Some (Num n)\<rparr>) p \<longleftrightarrow> p_wardNumber p = n"
  by (simp add: matches_def empty_query_def)

lemma with_status_category_none:
  "\<not> truthy (lq_status q) \<Longrightarrow> \<not> truthy (lq_category q) \<Longrightarrow> with_status_category q query = query"
  by (simp add: with_status_category_def)

lemma length_newest_first: "length (newest_first xs) = length xs"
  by (simp add: newest_first_def)

text \<open>
  C6. For a user who is not an administrator, \<open>GET /api/wards/:wardNumber/problems\<close>
  answers 403 with the message \<open>Access denied\<close> and nothing else whenever the path does not
  read as the user's own ward number, so for the decimal rendering of every other number.
  For the user's own ward it never answers 403; every problem of a page it returns is a
  stored problem of that ward; it returns a page of the ward's problems, newest first,
  whenever the skip is not negative; and without filters and paging parameters a ward with
  at most ten problems gets all of them.
\<close>

theorem get_ward_problems_access:
  assumes "u_role u \<noteq> ''admin''"
  shows "(parseInt param \<noteq> Num (u_wardNumber u) \<longrightarrow>
            get_ward_problems w u param q = reply 403 (Message ''Access denied''))
    \<and> (n \<noteq> u_wardNumber u \<longrightarrow>
            get_ward_problems w u (show_int n) q = reply 403 (Message ''Access denied''))
    \<and> (parseInt param = Num (u_wardNumber u) \<longrightarrow>
          code (get_ward_problems w u param q) \<noteq> 403
          \<and> (\<forall>vs tp pg tot. body (get_ward_problems w u param q) = ProblemPage vs tp pg tot \<longrightarrow>
                (\<forall>v \<in> set vs. doc v \<in> set (db_problems w) \<and> p_wardNumber (doc v) = u_wardNumber u))
          \<and> (0 \<le> (page_of q - 1) * limit_of q \<longrightarrow>
                (\<exists>ps tp. get_ward_problems w u param q =
                     reply 200 (ProblemPage (map (populate_both w) ps) tp (page_of q)
                       (length (filter (matches (with_status_category q
                          (empty_query\<lparr>q_wardNumber := Some (Num (u_wardNumber u))\<rparr>))) (db_problems w))))
                   \<and> ps = limit_to (limit_of q) (drop (nat ((page_of q - 1) * limit_of q))
                            (newest_first (filter (matches (with_status_category q
                               (empty_query\<lparr>q_wardNumber := Some (Num (u_wardNumber u))\<rparr>)))
                               (db_problems w))))))
          \<and> (\<not> truthy (lq_status q) \<and> \<not> truthy (lq_category q) \<and> lq_page q = None \<and> lq_limit q = None
               \<and> length (filter (\<lambda>p. p_wardNumber p = u_wardNumber u) (db_problems w)) \<le> 10 \<longrightarrow>
                (\<exists>vs tp pg tot. get_ward_problems w u param q = reply 200 (ProblemPage vs tp pg tot)
                   \<and> doc ` set vs = {p \<in> set (db_problems w). p_wardNumber p = u_wardNumber u})))"
proof -
  define query where
    "query = with_status_category q (empty_query\<lparr>q_wardNumber := Some (Num (u_wardNumber u))\<rparr>)"
  have qw: "q_wardNumber query = Some (Num (u_wardNumber u))" by (simp add: query_def)
  have 1: "parseInt param \<noteq> Num (u_wardNumber u) \<longrightarrow>
            get_ward_problems w u param q = reply 403 (Message ''Access denied'')"
    using assms by (simp add: get_ward_problems_def)
  have 2: "n \<noteq> u_wardNumber u \<longrightarrow>
            get_ward_problems w u (show_int n) q = reply 403 (Message ''Access denied'')"
    using assms by (simp add: get_ward_problems_def parseInt_show_int)
  have 3: "code (get_ward_problems w u param q) \<noteq> 403
          \<and> (\<forall>vs tp pg tot. body (get_ward_problems w u param q) = ProblemPage vs tp pg tot \<longrightarrow>
                (\<forall>v \<in> set vs. doc v \<in> set (db_problems w) \<and> p_wardNumber (doc v) = u_wardNumber u))
          \<and> (0 \<le> (page_of q - 1) * limit_of q \<longrightarrow>
                (\<exists>ps tp. get_ward_problems w u param q =
                     reply 200 (ProblemPage (map (populate_both w) ps) tp (page_of q)
                       (length (filter (matches query) (db_problems w))))
                   \<and> ps = limit_to (limit_of q) (drop (nat ((page_of q - 1) * limit_of q))
                            (newest_first (filter (matches query) (db_problems w))))))
          \<and> (\<not> truthy (lq_status q) \<and> \<not> truthy (lq_category q) \<and> lq_page q = None \<and> lq_limit q = None
               \<and> length (filter (\<lambda>p. p_wardNumber p = u_wardNumber u) (db_problems w)) \<le> 10 \<longrightarrow>
                (\<exists>vs tp pg tot. get_ward_problems w u param q = reply 200 (ProblemPage vs tp pg tot)
                   \<and> doc ` set vs = {p \<in> set (db_problems w). p_wardNumber p = u_wardNumber u}))"
    if own: "parseInt param = Num (u_wardNumber u)"
  proof -
    have g: "get_ward_problems w u param q =
               list_page w q query ''Server error while fetching ward problems''"
      using own by (simp add: get_ward_problems_def query_def)
    have a: "code (get_ward_problems w u param q) \<noteq> 403" unfolding g by (rule list_page_not_403)
    have b: "\<forall>vs tp pg tot. body (get_ward_problems w u param q) = ProblemPage vs tp pg tot \<longrightarrow>
                (\<forall>v \<in> set vs. doc v \<in> set (db_problems w) \<and> p_wardNumber (doc v) = u_wardNumber u)"
      unfolding g using list_page_docs matches_ward[OF _ qw] by blast
    have ok: "get_ward_problems w u param q =
           reply 200 (ProblemPage
             (map (populate_both w)
                (limit_to (limit_of q) (drop (nat ((page_of q - 1) * limit_of q))
                   (newest_first (filter (matches query) (db_problems w))))))
             (totalPages (length (filter (matches query) (db_problems w))) (limit_of q))
             (page_of q) (length (filter (matches query) (db_problems w))))"
      if "0 \<le> (page_of q - 1) * limit_of q"
      unfolding g using list_page_ok[OF _ that, of query w] qw by simp
    have c: "0 \<le> (page_of q - 1) * limit_of q \<longrightarrow>
                (\<exists>ps tp. get_ward_problems w u param q =
                     reply 200 (ProblemPage (map (populate_both w) ps) tp (page_of q)
                       (length (filter (matches query) (db_problems w))))
                   \<and> ps = limit_to (limit_of q) (drop (nat ((page_of q - 1) * limit_of q))
                            (newest_first (filter (matches query) (db_problems w)))))"
      using ok by blast
    have d: "\<exists>vs tp pg tot. get_ward_problems w u param q = reply 200 (ProblemPage vs tp pg tot)
                   \<and> doc ` set vs = {p \<in> set (db_problems w). p_wardNumber p = u_wardNumber u}"
      if plain: "\<not> truthy (lq_status q)" "\<not> truthy (lq_category q)" "lq_page q = None" "lq_limit q = None"
        and few: "length (filter (\<lambda>p. p_wardNumber p = u_wardNumber u) (db_problems w)) \<le> 10"
    proof -
      have pl: "page_of q = 1" "limit_of q = 10" using plain by (simp_all add: page_of_def limit_of_def)
      have qe: "query = empty_query\<lparr>q_wardNumber := Some (Num (u_wardNumber u))\<rparr>"
        unfolding query_def using plain by (simp add: with_status_category_none)
      have m: "filter (matches query) (db_problems w)
                 = filter (\<lambda>p. p_wardNumber p = u_wardNumber u) (db_problems w)"
        unfolding qe by (rule filter_cong) (simp_all add: matches_ward_only)
      have all: "limit_to 10 (drop (nat 0) (newest_first (filter (matches query) (db_problems w))))
                   = newest_first (filter (\<lambda>p. p_wardNumber p = u_wardNumber u) (db_problems w))"
        using few by (simp add: m limit_to_def length_newest_first)
      define vs where "vs = map (populate_both w)
               (newest_first (filter (\<lambda>p. p_wardNumber p = u_wardNumber u) (db_problems w)))"
      have im: "doc ` set vs = {p \<in> set (db_problems w). p_wardNumber p = u_wardNumber u}"
        unfolding vs_def by (auto simp: set_newest_first image_iff)
      have skip0: "(0::int) \<le> (page_of q - 1) * limit_of q" by (simp add: pl)
      have eq: "get_ward_problems w u param q =
                  reply 200 (ProblemPage vs (totalPages (length (filter (matches query) (db_problems w))) 10)
                     1 (length (filter (matches query) (db_problems w))))"
        using ok[OF skip0] all by (simp add: pl vs_def)
      show ?thesis using eq im by blast
    qed
    show ?thesis using a b c d by blast
  qed
  show ?thesis using 1 2 3 unfolding query_def by blast
qed


lemma parseInt_3_5: "parseInt ''3'' = Num 3" "parseInt ''5'' = Num 5"
  by (simp_all add: parseInt_def ltrim_def is_ws_def digit_of_def)

theorem get_ward_problems_access_witness:
  "u_role resident3 \<noteq> ''admin'' \<and> parseInt ''5'' \<noteq> Num (u_wardNumber resident3)
   \<and> get_ward_problems two_ward_world resident3 ''5'' ask_all = reply 403 (Message ''Access denied'')
   \<and> parseInt ''3'' = Num (u_wardNumber resident3)
   \<and> (\<exists>vs tp pg tot. get_ward_problems two_ward_world resident3 ''3'' ask_all
                         = reply 200 (ProblemPage vs tp pg tot)
         \<and> doc ` set vs = {pipe_problem})"
proof -
  have w3: "u_wardNumber resident3 = 3" by (simp add: resident3_def)
  note t = get_ward_problems_access[OF resident3_not_admin, of _ two_ward_world ask_all]
  have other: "parseInt ''5'' \<noteq> Num (u_wardNumber resident3)" by (simp add: parseInt_3_5 w3)
  have own: "parseInt ''3'' = Num (u_wardNumber resident3)" by (simp add: parseInt_3_5 w3)
  have denied: "get_ward_problems two_ward_world resident3 ''5'' ask_all
                  = reply 403 (Message ''Access denied'')"
    using t[of "''5''"] other by blast
  have plain: "\<not> truthy (lq_status ask_all) \<and> \<not> truthy (lq_category ask_all)
                 \<and> lq_page ask_all = None \<and> lq_limit ask_all = None"
    by (simp add: ask_all_def)
  have few: "length (filter (\<lambda>p. p_wardNumber p = u_wardNumber resident3) (db_problems two_ward_world)) \<le> 10"
    by (simp add: two_ward_world_problems)
  have s: "{p \<in> set (db_problems two_ward_world). p_wardNumber p = u_wardNumber resident3} = {pipe_problem}"
    by (auto simp: two_ward_world_problems w3 pipe_problem_def lamp_problem_def)
  have "\<exists>vs tp pg tot. get_ward_problems two_ward_world resident3 ''3'' ask_all
                         = reply 200 (ProblemPage vs tp pg tot)
         \<and> doc ` set vs = {p \<in> set (db_problems two_ward_world). p_wardNumber p = u_wardNumber resident3}"
    using t[of "''3''"] own plain few by blast
  then show ?thesis using resident3_not_admin other denied own unfolding s by blast
qed

section \<open>The detail of a ward\<close>

lemma sorted_take_drop:
  assumes "sorted (map f ys)" and "x \<in> set (take k ys)" and "y \<in> set (drop k ys)"
  shows "f x \<le> f y"
proof -
  have "sorted (map f (take k ys @ drop k ys))" using assms(1) by simp
  then show ?thesis using assms(2,3) unfolding map_append sorted_append by auto
qed

lemma newest_first_sorted: "sorted (map (\<lambda>p. - p_createdAt p) (newest_first ps))"
  by (simp add: newest_first_def)

lemma newest_first_rest_older:
  assumes "p \<in> set ps" and "p \<notin> set (take k (newest_first ps))" and "x \<in> set (take k (newest_first ps))"
  shows "p_createdAt p \<le> p_createdAt x"
proof -
  have "set (newest_first ps) = set (take k (newest_first ps)) \<union> set (drop k (newest_first ps))"
    by (metis append_take_drop_id set_append)
  then have "p \<in> set (drop k (newest_first ps))" using assms(1,2) by (auto simp: set_newest_first)
  from sorted_take_drop[OF newest_first_sorted assms(3) this] show ?thesis by simp
qed

lemma count_list_map_status:
  "count_list (map status ps) s = length (filter (\<lambda>p. status p = s) ps)"
  by (induction ps) auto

lemma group_count_iff:
  "(s, c) \<in> set (group_count xs) \<longleftrightarrow> 0 < c \<and> c = count_list xs s"
proof -
  have pos: "0 < count_list xs s \<longleftrightarrow> s \<in> set xs"
    using count_list_0_iff[of xs s] by auto
  show ?thesis unfolding group_count_def using pos by auto
qed

lemma group_count_distinct: "distinct (map fst (group_count xs))"
  by (simp add: group_count_def comp_def)

lemma map_doc_populate_reportedBy:
  "map doc (map (\<lambda>p. populate_reportedBy w (view p)) ps) = ps"
  by (induction ps) (simp_all add: populate_reportedBy_def view_def)

text \<open>
  C10. \<open>GET /api/wards/:wardNumber\<close> does not read \<open>req.user\<close>: for every path it answers
  two users alike. For the number of an active ward it answers 200 with the ward, the
  first five of the ward's problems in the order newest first (so no problem of the ward
  that is left out is newer than one that is returned), and for each status that occurs
  in the ward the number of the ward's problems with it. A resident of another ward gets
  this answer too.
\<close>

theorem get_ward_open_to_all:
  assumes "find (\<lambda>x. w_wardNumber x = n \<and> isActive x) (db_wards w) = Some ward"
  shows "\<exists>recent stats.
       get_ward w u (show_int n) = reply 200 (WardDetail ward recent stats)
     \<and> map doc recent = take 5 (newest_first (filter (\<lambda>p. p_wardNumber p = n) (db_problems w)))
     \<and> (\<forall>p v. p \<in> set (db_problems w) \<and> p_wardNumber p = n \<and> p \<notin> doc ` set recent \<and> v \<in> set recent
            \<longrightarrow> p_createdAt p \<le> p_createdAt (doc v))
     \<and> (\<forall>s c. (s, c) \<in> set stats \<longleftrightarrow>
            0 < c \<and> c = length (filter (\<lambda>p. p_wardNumber p = n \<and> status p = s) (db_problems w)))
     \<and> distinct (map fst stats)
     \<and> (\<forall>u' param. get_ward w u' param = get_ward w u param)"
proof -
  define inWard where "inWard = filter (\<lambda>p. p_wardNumber p = n) (db_problems w)"
  define recent where
    "recent = map (\<lambda>p. populate_reportedBy w (view p)) (take 5 (newest_first inWard))"
  define stats where "stats = group_count (map status inWard)"
  have m: "filter (matches (empty_query\<lparr>q_wardNumber := Some (Num n)\<rparr>)) (db_problems w) = inWard"
    unfolding inWard_def by (rule filter_cong) (simp_all add: matches_ward_only)
  have f: "ward_findOne w (Num n) True = Inr (Some ward)"
    using assms by (simp add: ward_findOne_def)
  have g: "get_ward w u (show_int n) = reply 200 (WardDetail ward recent stats)"
    by (simp add: get_ward_def parseInt_show_int f m Let_def limit_to_def recent_def stats_def)
  have d: "map doc recent = take 5 (newest_first inWard)"
    unfolding recent_def by (rule map_doc_populate_reportedBy)
  have o: "\<forall>p v. p \<in> set (db_problems w) \<and> p_wardNumber p = n \<and> p \<notin> doc ` set recent \<and> v \<in> set recent
            \<longrightarrow> p_createdAt p \<le> p_createdAt (doc v)"
  proof (intro allI impI)
    fix p v
    assume a: "p \<in> set (db_problems w) \<and> p_wardNumber p = n \<and> p \<notin> doc ` set recent \<and> v \<in> set recent"
    have s: "doc ` set recent = set (take 5 (newest_first inWard))"
      using d by (metis set_map)
    have "p \<in> set inWard" using a by (simp add: inWard_def)
    moreover have "p \<notin> set (take 5 (newest_first inWard))" using a s by simp
    moreover have "doc v \<in> set (take 5 (newest_first inWard))" using a s by blast
    ultimately show "p_createdAt p \<le> p_createdAt (doc v)" by (rule newest_first_rest_older)
  qed
  have c: "\<forall>s c. (s, c) \<in> set stats \<longleftrightarrow>
            0 < c \<and> c = length (filter (\<lambda>p. p_wardNumber p = n \<and> status p = s) (db_problems w))"
    unfolding stats_def group_count_iff count_list_map_status inWard_def
    by (auto simp: conj_commute)
  have i: "\<forall>u' param. get_ward w u' param = get_ward w u param" by (simp add: get_ward_def)
  show ?thesis
    using g d[unfolded inWard_def] o c i group_count_distinct[of "map status inWard"]
    unfolding stats_def[symmetric] by blast
qed


lemma ward_world_fields:
  "db_wards ward_world = [sample_ward 3 True, sample_ward 4 False, sample_ward 5 True]"
  "db_problems ward_world = [pipe_problem, lamp_problem]"
  by (simp_all add: ward_world_def two_ward_world_def empty_world_def)

theorem get_ward_open_to_all_witness:
  "find (\<lambda>x. w_wardNumber x = 5 \<and> isActive x) (db_wards ward_world) = Some (sample_ward 5 True)
   \<and> u_role resident3 \<noteq> ''admin'' \<and> u_wardNumber resident3 \<noteq> 5
   \<and> (\<exists>recent stats.
         get_ward ward_world resident3 (show_int 5) = reply 200 (WardDetail (sample_ward 5 True) recent stats)
       \<and> map doc recent = [lamp_problem] \<and> (''Open'', 1) \<in> set stats)"
proof -
  have f: "find (\<lambda>x. w_wardNumber x = 5 \<and> isActive x) (db_wards ward_world) = Some (sample_ward 5 True)"
    by (simp add: ward_world_fields sample_ward_def)
  have r: "u_wardNumber resident3 \<noteq> 5" by (simp add: resident3_def)
  have t: "take 5 (newest_first (filter (\<lambda>p. p_wardNumber p = 5) (db_problems ward_world))) = [lamp_problem]"
    by (simp add: ward_world_fields newest_first_def pipe_problem_def lamp_problem_def)
  have c: "length (filter (\<lambda>p. p_wardNumber p = 5 \<and> status p = ''Open'') (db_problems ward_world)) = 1"
    by (simp add: ward_world_fields pipe_problem_def lamp_problem_def)
  from get_ward_open_to_all[OF f, of resident3] obtain recent stats where
    g: "get_ward ward_world resident3 (show_int 5) = reply 200 (WardDetail (sample_ward 5 True) recent stats)"
    and d: "map doc recent = take 5 (newest_first (filter (\<lambda>p. p_wardNumber p = 5) (db_problems ward_world)))"
    and s: "\<forall>s c. (s, c) \<in> set stats \<longleftrightarrow>
            0 < c \<and> c = length (filter (\<lambda>p. p_wardNumber p = 5 \<and> status p = s) (db_problems ward_world))"
    by blast
  have o: "(''Open'', 1) \<in> set stats" using s c by simp
  have d': "map doc recent = [lamp_problem]" using d t by simp
  have ex: "\<exists>recent stats.
         get_ward ward_world resident3 (show_int 5) = reply 200 (WardDetail (sample_ward 5 True) recent stats)
       \<and> map doc recent = [lamp_problem] \<and> (''Open'', 1) \<in> set stats"
    using g d' o by (intro exI[of _ recent] exI[of _ stats] conjI)
  show ?thesis using f resident3_not_admin r ex by (intro conjI)
qed

section \<open>Creating a ward\<close>

lemma find_Some_if_any: "x \<in> set xs \<Longrightarrow> P x \<Longrightarrow> \<exists>y. find P xs = Some y"
  by (induction xs) auto

text \<open>
  C7. When the collection has a ward with the number of the body, active or not,
  \<open>POST /api/wards\<close> leaves the whole store as it is and does not answer 201; a body that
  passes the validators is answered with 400 and the message that the ward exists.
\<close>

theorem post_ward_duplicate:
  assumes "x \<in> set (db_wards w)" and "w_wardNumber x = n" and "wb_wardNumber b = Some n"
  shows "snd (post_ward w b now) = w
     \<and> code (fst (post_ward w b now)) \<noteq> 201
     \<and> (validate_post_ward b = [] \<longrightarrow>
           fst (post_ward w b now) = reply 400 (Message ''Ward with this number already exists''))"
proof -
  obtain y where y: "find (\<lambda>x. w_wardNumber x = n) (db_wards w) = Some y"
    using find_Some_if_any[of x "db_wards w" "\<lambda>x. w_wardNumber x = n"] assms(1,2) by blast
  have f: "ward_findOne w (Num n) False = Inr (Some y)" using y by (simp add: ward_findOne_def)
  show ?thesis
  proof (cases "validate_post_ward b = []")
    case True
    then show ?thesis using f assms(3) by (simp add: post_ward_def reply_def)
  next
    case False
    then show ?thesis by (simp add: post_ward_def reply_def)
  qed
qed

lemma ward4_body_valid: "validate_post_ward ward4_body = []"
  by (simp add: validate_post_ward_def check_def ward4_body_def rename_body_def str_of_def trim_def
      is_ws_def)

theorem post_ward_duplicate_witness:
  "sample_ward 4 False \<in> set (db_wards ward_world) \<and> w_wardNumber (sample_ward 4 False) = 4
   \<and> wb_wardNumber ward4_body = Some 4 \<and> validate_post_ward ward4_body = []
   \<and> post_ward ward_world ward4_body 5000 =
        (reply 400 (Message ''Ward with this number already exists''), ward_world)"
proof -
  have a: "sample_ward 4 False \<in> set (db_wards ward_world)" by (simp add: ward_world_fields)
  have b: "w_wardNumber (sample_ward 4 False) = 4" by (simp add: sample_ward_def)
  have c: "wb_wardNumber ward4_body = Some 4" by (simp add: ward4_body_def)
  have "post_ward ward_world ward4_body 5000 =
        (reply 400 (Message ''Ward with this number already exists''), ward_world)"
    using post_ward_duplicate[OF a b c, of 5000] ward4_body_valid
    by (simp add: prod_eq_iff)
  then show ?thesis using a b c ward4_body_valid by (intro conjI)
qed

section \<open>Updating a ward\<close>

lemma put_valid_updates:
  assumes "validate_put_ward b = []" and "wb_wardNumber b = None"
  shows "updates_valid b"
proof -
  from assms(1) have n: "case wb_name b of None \<Rightarrow> True | Some n \<Rightarrow> 2 \<le> length (trim n)"
    and d: "case wb_description b of None \<Rightarrow> True | Some d \<Rightarrow> length (trim d) \<le> 500"
    by (simp_all add: validate_put_ward_def check_Nil)
  have n': "case wb_name b of None \<Rightarrow> True | Some n \<Rightarrow> trim (trim n) \<noteq> []"
    using n by (cases "wb_name b") (auto simp: trim_trim)
  have d': "case wb_description b of None \<Rightarrow> True | Some d \<Rightarrow> length (trim (trim d)) \<le> 500"
    using d by (cases "wb_description b") (auto simp: trim_trim)
  show ?thesis using n' d' assms(2) by (simp add: updates_valid_def)
qed

text \<open>
  The detail route looks the ward up with \<open>isActive: true\<close>: no active ward of the
  number, and the answer is 404.
\<close>

lemma get_ward_not_active:
  assumes "find (\<lambda>x. w_wardNumber x = n \<and> isActive x) (db_wards w) = None"
  shows "get_ward w u (show_int n) = reply 404 (Message ''Ward not found'')"
  using assms by (simp add: get_ward_def parseInt_show_int ward_findOne_def)

text \<open>
  The update looks the ward up by its number alone: it answers 404 only when no ward at
  all has the number, and it reaches a ward that is not active as it reaches any other.
\<close>

lemma put_ward_no_ward:
  assumes "validate_put_ward b = []" and "updates_valid b"
    and "find (\<lambda>x. w_wardNumber x = n) (db_wards w) = None"
  shows "put_ward w (show_int n) b now = (reply 404 (Message ''Ward not found''), w)"
  using assms by (simp add: put_ward_def parseInt_show_int findOneAndUpdate_def)

lemma put_ward_any_ward:
  assumes "validate_put_ward b = []" and "wb_wardNumber b = None"
    and "find (\<lambda>x. w_wardNumber x = n) (db_wards w) = Some x"
  shows "put_ward w (show_int n) b now =
          (reply 200 (WardMsg ''Ward updated successfully'' ((apply_updates b x)\<lparr>w_updatedAt := now\<rparr>)),
           w\<lparr>db_wards := update_first (\<lambda>y. w_wardNumber y = n)
                            (\<lambda>y. (apply_updates b x)\<lparr>w_updatedAt := now\<rparr>) (db_wards w)\<rparr>)"
proof -
  have v: "updates_valid b" using assms(1,2) by (rule put_valid_updates)
  have k: "w_wardNumber x = n"
    using assms(3) find_Some_mem[of "\<lambda>x. w_wardNumber x = n" "db_wards w" x] by blast
  have same: "w_wardNumber ((apply_updates b x)\<lparr>w_updatedAt := now\<rparr>) = n"
    using assms(2) k by (simp add: apply_updates_def)
  show ?thesis
    using assms v same by (simp add: put_ward_def parseInt_show_int findOneAndUpdate_def Let_def)
qed

lemma rename_body_valid: "validate_put_ward rename_body = []" "wb_wardNumber rename_body = None"
  by (simp_all add: validate_put_ward_def check_def rename_body_def trim_def is_ws_def)

lemma rename_ward4:
  "apply_updates rename_body (sample_ward 4 False) = (sample_ward 4 False)\<lparr>w_name := ''Old Mill''\<rparr>"
  by (simp add: apply_updates_def rename_body_def sample_ward_def trim_def is_ws_def)

lemma put_ward4:
  "put_ward ward_world ''4'' rename_body 5000 =
     (reply 200 (WardMsg ''Ward updated successfully''
        ((sample_ward 4 False)\<lparr>w_name := ''Old Mill'', w_updatedAt := 5000\<rparr>)),
      ward_world\<lparr>db_wards :=
         [sample_ward 3 True, (sample_ward 4 False)\<lparr>w_name := ''Old Mill'', w_updatedAt := 5000\<rparr>,
          sample_ward 5 True]\<rparr>)"
proof -
  have p: "parseInt ''4'' = Num 4" by (simp add: parseInt_def ltrim_def is_ws_def digit_of_def)
  have v: "updates_valid rename_body" by (rule put_valid_updates[OF rename_body_valid])
  have f: "find (\<lambda>x. w_wardNumber x = 4) (db_wards ward_world) = Some (sample_ward 4 False)"
    by (simp add: ward_world_fields sample_ward_def)
  have n: "w_wardNumber ((sample_ward 4 False)\<lparr>w_name := ''Old Mill'', w_updatedAt := 5000\<rparr>) = 4"
    by (simp add: sample_ward_def)
  have u: "update_first (\<lambda>y. w_wardNumber y = 4) (\<lambda>y. z) (db_wards ward_world)
             = [sample_ward 3 True, z, sample_ward 5 True]" for z
    by (simp add: ward_world_fields sample_ward_def)
  show ?thesis
    by (simp add: put_ward_def rename_body_valid findOneAndUpdate_def p v f rename_ward4 n u Let_def)
qed

lemma parseInt_4: "parseInt ''4'' = Num 4"
  by (simp add: parseInt_def ltrim_def is_ws_def digit_of_def)

lemma get_ward4: "get_ward ward_world resident3 ''4'' = reply 404 (Message ''Ward not found'')"
  by (simp add: get_ward_def parseInt_4 ward_findOne_def ward_world_fields sample_ward_def)

lemma get_ward4_problems:
  "get_ward_problems ward_world adminUser ''4'' ask_all = reply 200 (ProblemPage [] (Some 0) 1 0)"
  by (simp add: get_ward_problems_def parseInt_4 adminUser_def ask_all_def with_status_category_def
      empty_query_def list_page_def find_problems_def countDocuments_def page_of_def limit_of_def
      limit_to_def newest_first_def matches_def ward_world_fields pipe_problem_def lamp_problem_def
      totalPages_def)

text \<open>
  C8 on the code. Ward 4 of the sample store is there and is not active.
  \<open>GET /api/wards/4\<close> answers 404, as every operation that resolves the ward number
  should. \<open>PUT /api/wards/4\<close> with a new name does not: it answers 200, and the stored
  ward has the new name and a new \<open>updatedAt\<close>. \<open>GET /api/wards/4/problems\<close> looks no
  ward up and answers an administrator with 200 and an empty page.
\<close>

theorem put_ward_reaches_inactive_ward:
  "isActive (sample_ward 4 False) = False
   \<and> db_wards ward_world = [sample_ward 3 True, sample_ward 4 False, sample_ward 5 True]
   \<and> get_ward ward_world resident3 ''4'' = reply 404 (Message ''Ward not found'')
   \<and> code (fst (put_ward ward_world ''4'' rename_body 5000)) = 200
   \<and> db_wards (snd (put_ward ward_world ''4'' rename_body 5000)) =
        [sample_ward 3 True,
         (sample_ward 4 False)\<lparr>w_name := ''Old Mill'', w_updatedAt := 5000\<rparr>,
         sample_ward 5 True]
   \<and> w_name (sample_ward 4 False) \<noteq> ''Old Mill''
   \<and> get_ward_problems ward_world adminUser ''4'' ask_all = reply 200 (ProblemPage [] (Some 0) 1 0)"
  by (simp add: put_ward4 get_ward4 get_ward4_problems reply_def ward_world_fields)
    (simp add: sample_ward_def)

section \<open>The data of the first start\<close>

lemma defaultWards_unrolled:
  "defaultWards_loop rand 1 [] = map (default_ward rand) [1, 2, 3, 4, 5, 6, 7, 8, 9, 10]"
  by (simp add: defaultWards_loop.simps eval_nat_numeral)

lemma default_ward_fields:
  "w_wardNumber (default_ward rand i) = int i"
  "w_name (default_ward rand i) = trim (''Ward '' @ show_nat i)"
  "w_description (default_ward rand i) = Some (trim (''Area '' @ show_nat i @ '' of Swatch Village''))"
  by (simp_all add: default_ward_def)

lemma default_ward_valid:
  "ward_valid (default_ward rand 1)" "ward_valid (default_ward rand 2)"
  "ward_valid (default_ward rand 3)" "ward_valid (default_ward rand 4)"
  "ward_valid (default_ward rand 5)" "ward_valid (default_ward rand 6)"
  "ward_valid (default_ward rand 7)" "ward_valid (default_ward rand 8)"
  "ward_valid (default_ward rand 9)" "ward_valid (default_ward rand 10)"
  unfolding ward_valid_def default_ward_fields
  by (simp_all add: show_nat.simps digit_char_def trim_def is_ws_def)

lemma default_wards_valid:
  "list_all ward_valid (map (default_ward rand) [1, 2, 3, 4, 5, 6, 7, 8, 9, 10])"
  by (simp add: default_ward_valid del: One_nat_def)

lemma default_wards_numbers:
  "map w_wardNumber (map (\<lambda>d. d\<lparr>w_createdAt := now, w_updatedAt := now\<rparr>)
      (map (default_ward rand) [1, 2, 3, 4, 5, 6, 7, 8, 9, 10])) = [1, 2, 3, 4, 5, 6, 7, 8, 9, 10]"
  by (simp add: default_ward_fields)

lemma insert_ordered_distinct:
  "distinct (map w_wardNumber (coll @ docs)) \<Longrightarrow> insert_ordered coll docs = (coll @ docs, True)"
  by (induction docs arbitrary: coll) auto

lemma insertMany_defaults:
  assumes "db_wards w = []"
  shows "insertMany w (defaultWards_loop rand 1 []) now =
           (w\<lparr>db_wards := map (\<lambda>d. d\<lparr>w_createdAt := now, w_updatedAt := now\<rparr>)
                              (map (default_ward rand) [1, 2, 3, 4, 5, 6, 7, 8, 9, 10])\<rparr>, True)"
proof -
  have d: "distinct (map w_wardNumber ([] @ map (\<lambda>d. d\<lparr>w_createdAt := now, w_updatedAt := now\<rparr>)
      (map (default_ward rand) [1, 2, 3, 4, 5, 6, 7, 8, 9, 10])))"
    unfolding append_Nil default_wards_numbers by simp
  show ?thesis
    unfolding insertMany_def defaultWards_unrolled assms
    using default_wards_valid[of rand] insert_ordered_distinct[OF d]
    by (simp del: list.map)
qed

lemma find_admin_None: "filter (\<lambda>u. u_role u = ''admin'') us = [] \<Longrightarrow> find (\<lambda>u. u_role u = ''admin'') us = None"
  by (induction us) (auto split: if_splits)

text \<open>
  C9. On a store with no ward and no administrator the routine inserts ten wards, numbered
  1 to 10 in this order, and one user, who is an administrator, and touches nothing else.
  On a store with a ward and an administrator it changes nothing; so a second run after
  the first, whatever the random numbers and the clock, changes nothing.
\<close>

theorem initializeDefaultData_idempotent:
  "(db_wards w = [] \<and> filter (\<lambda>u. u_role u = ''admin'') (db_users w) = [] \<longrightarrow>
       map w_wardNumber (db_wards (initializeDefaultData rand hash w now)) = [1, 2, 3, 4, 5, 6, 7, 8, 9, 10]
     \<and> length (db_wards (initializeDefaultData rand hash w now)) = 10
     \<and> length (filter (\<lambda>u. u_role u = ''admin'') (db_users (initializeDefaultData rand hash w now))) = 1
     \<and> length (db_users (initializeDefaultData rand hash w now)) = length (db_users w) + 1
     \<and> db_problems (initializeDefaultData rand hash w now) = db_problems w
     \<and> initializeDefaultData rand' hash' (initializeDefaultData rand hash w now) now'
         = initializeDefaultData rand hash w now)
   \<and> (db_wards w \<noteq> [] \<and> filter (\<lambda>u. u_role u = ''admin'') (db_users w) \<noteq> [] \<longrightarrow>
       initializeDefaultData rand hash w now = w)"
proof -
  have stay: "initializeDefaultData r h v t = v"
    if "db_wards v \<noteq> []" and "filter (\<lambda>u. u_role u = ''admin'') (db_users v) \<noteq> []" for r h v t
  proof -
    from that(2) obtain a where "a \<in> set (db_users v)" "u_role a = ''admin''"
      by (auto simp: filter_empty_conv)
    then obtain y where "find (\<lambda>u. u_role u = ''admin'') (db_users v) = Some y"
      using find_Some_if_any[of a "db_users v" "\<lambda>u. u_role u = ''admin''"] by blast
    then show ?thesis using that(1) by (simp add: initializeDefaultData_def)
  qed
  have first: "map w_wardNumber (db_wards (initializeDefaultData rand hash w now)) = [1, 2, 3, 4, 5, 6, 7, 8, 9, 10]
     \<and> length (db_wards (initializeDefaultData rand hash w now)) = 10
     \<and> length (filter (\<lambda>u. u_role u = ''admin'') (db_users (initializeDefaultData rand hash w now))) = 1
     \<and> length (db_users (initializeDefaultData rand hash w now)) = length (db_users w) + 1
     \<and> db_problems (initializeDefaultData rand hash w now) = db_problems w
     \<and> initializeDefaultData rand' hash' (initializeDefaultData rand hash w now) now'
         = initializeDefaultData rand hash w now"
    if e: "db_wards w = []" and na: "filter (\<lambda>u. u_role u = ''admin'') (db_users w) = []"
  proof -
    define ws where "ws = map (\<lambda>d. d\<lparr>w_createdAt := now, w_updatedAt := now\<rparr>)
                              (map (default_ward rand) [1, 2, 3, 4, 5, 6, 7, 8, 9, 10])"
    have im: "insertMany w (defaultWards_loop rand 1 []) now = (w\<lparr>db_wards := ws\<rparr>, True)"
      unfolding ws_def by (rule insertMany_defaults[OF e])
    have fa: "find (\<lambda>u. u_role u = ''admin'') (db_users (w\<lparr>db_wards := ws\<rparr>)) = None"
      using find_admin_None[OF na] by simp
    have r: "initializeDefaultData rand hash w now = user_save hash (w\<lparr>db_wards := ws\<rparr>) adminUser"
      unfolding initializeDefaultData_def e im using fa by simp
    have nums: "map w_wardNumber ws = [1, 2, 3, 4, 5, 6, 7, 8, 9, 10]"
      unfolding ws_def by (rule default_wards_numbers)
    have "length (map w_wardNumber ws) = 10" unfolding nums by simp
    then have len: "length ws = 10" by simp
    have a1: "map w_wardNumber (db_wards (initializeDefaultData rand hash w now)) = [1, 2, 3, 4, 5, 6, 7, 8, 9, 10]"
      unfolding r using nums by (simp add: user_save_def)
    have a2: "length (db_wards (initializeDefaultData rand hash w now)) = 10"
      unfolding r using len by (simp add: user_save_def)
    have a3: "length (filter (\<lambda>u. u_role u = ''admin'') (db_users (initializeDefaultData rand hash w now))) = 1"
      unfolding r using na by (simp add: user_save_def adminUser_def)
    have a4: "length (db_users (initializeDefaultData rand hash w now)) = length (db_users w) + 1"
      unfolding r by (simp add: user_save_def)
    have a5: "db_problems (initializeDefaultData rand hash w now) = db_problems w"
      unfolding r by (simp add: user_save_def)
    have "db_wards (initializeDefaultData rand hash w now) \<noteq> []" using a2 by auto
    moreover have "filter (\<lambda>u. u_role u = ''admin'') (db_users (initializeDefaultData rand hash w now)) \<noteq> []"
      using a3 by auto
    ultimately have a6: "initializeDefaultData rand' hash' (initializeDefaultData rand hash w now) now'
         = initializeDefaultData rand hash w now" by (rule stay)
    show ?thesis using a1 a2 a3 a4 a5 a6 by (intro conjI)
  qed
  have A: "db_wards w = [] \<and> filter (\<lambda>u. u_role u = ''admin'') (db_users w) = [] \<longrightarrow>
       map w_wardNumber (db_wards (initializeDefaultData rand hash w now)) = [1, 2, 3, 4, 5, 6, 7, 8, 9, 10]
     \<and> length (db_wards (initializeDefaultData rand hash w now)) = 10
     \<and> length (filter (\<lambda>u. u_role u = ''admin'') (db_users (initializeDefaultData rand hash w now))) = 1
     \<and> length (db_users (initializeDefaultData rand hash w now)) = length (db_users w) + 1
     \<and> db_problems (initializeDefaultData rand hash w now) = db_problems w
     \<and> initializeDefaultData rand' hash' (initializeDefaultData rand hash w now) now'
         = initializeDefaultData rand hash w now"
    using first by blast
  have B: "db_wards w \<noteq> [] \<and> filter (\<lambda>u. u_role u = ''admin'') (db_users w) \<noteq> [] \<longrightarrow>
       initializeDefaultData rand hash w now = w"
    using stay by blast
  show ?thesis using A B by (rule conjI)
qed

theorem initializeDefaultData_idempotent_witness:
  "db_wards empty_world = [] \<and> filter (\<lambda>u. u_role u = ''admin'') (db_users empty_world) = []
   \<and> map w_wardNumber (db_wards (initializeDefaultData (\<lambda>k. 7 * k) rev empty_world 50))
        = [1, 2, 3, 4, 5, 6, 7, 8, 9, 10]
   \<and> length (db_users (initializeDefaultData (\<lambda>k. 7 * k) rev empty_world 50)) = 1
   \<and> length (filter (\<lambda>u. u_role u = ''admin'')
         (db_users (initializeDefaultData (\<lambda>k. 7 * k) rev empty_world 50))) = 1
   \<and> initializeDefaultData (\<lambda>k. k) id (initializeDefaultData (\<lambda>k. 7 * k) rev empty_world 50) 60
        = initializeDefaultData (\<lambda>k. 7 * k) rev empty_world 50"
proof -
  have e: "db_wards empty_world = []" "filter (\<lambda>u. u_role u = ''admin'') (db_users empty_world) = []"
    "db_users empty_world = []"
    by (simp_all add: empty_world_def)
  show ?thesis
    using initializeDefaultData_idempotent[of empty_world "\<lambda>k. 7 * k" rev 50 "\<lambda>k. k" id 60] e
    by simp
qed

end
